theory Spec2Isabelle
  imports Complex_Main "HOL-Library.Sublist"
begin

section \<open>Yield aggregation and rebalancing (lib/defi-engine.ts)\<close>

text \<open>
  A TypeScript \<open>number\<close> held in a data field is modelled as a \<open>real\<close>: a finite value.
  The figures of this file (risk scores, returns, gains) are continuous and are computed
  with the exact arithmetic of the reals. In the strategy engine the price condition and
  the relative strength index are computed in binary64, every operation rounded, since
  their results are a decision at a threshold and a figure rounded to two decimals.
  String-valued unions are kept as strings where the code compares them as strings, and
  as datatypes where the code only indexes tables with them.
\<close>

datatype risk_level = low | medium | high

datatype risk_tolerance = conservative | balanced | aggressive

record ProtocolYield =
  protocol :: string
  pool :: string
  apy :: real
  tvl :: real
  risk :: risk_level
  token :: string
  address :: string

record Position =
  protocol :: string
  pool :: string
  amount :: real
  "value" :: real
  apy :: real

text \<open>
  The field \<open>reasoning\<close> of a recommendation is a display string assembled with
  \<open>toFixed\<close>; it is not modelled. The other four fields are.
\<close>

record RebalanceRecommendation =
  "from" :: Position
  to :: ProtocolYield
  amount :: real
  expectedGain :: real

subsection \<open>YieldAggregator: the simulated protocol snapshots\<close>

definition fetchJupiterYields :: "ProtocolYield list" where
  "fetchJupiterYields =
    [\<lparr>ProtocolYield.protocol = ''Jupiter'', ProtocolYield.pool = ''JLP Pool'',
      ProtocolYield.apy = 47.5, tvl = 285000000, risk = medium, token = ''JLP'',
      address = ''JLP9i4FzxhwzSeLPaLLxzYrYxQPFHGCPWz2Y2fRQ1vW4''\<rparr>,
     \<lparr>ProtocolYield.protocol = ''Jupiter'', ProtocolYield.pool = ''SOL-USDC Swap Pool'',
      ProtocolYield.apy = 12.3, tvl = 145000000, risk = low, token = ''SOL-USDC'',
      address = ''Jupiter3dWmvG7Ly5qnqAyxAiYvk4YQ4uxxKDYKDvqHqhp52''\<rparr>]"

definition fetchKaminoYields :: "ProtocolYield list" where
  "fetchKaminoYields =
    [\<lparr>ProtocolYield.protocol = ''Kamino'', ProtocolYield.pool = ''SOL Multiply'',
      ProtocolYield.apy = 89.2, tvl = 78000000, risk = high, token = ''SOL'',
      address = ''Kamino8ZPxZ7vT3p2fU4WYDhNKmLPqKJVqx9dPYFh3qR''\<rparr>,
     \<lparr>ProtocolYield.protocol = ''Kamino'', ProtocolYield.pool = ''USDC Lend'',
      ProtocolYield.apy = 18.7, tvl = 156000000, risk = low, token = ''USDC'',
      address = ''Kamino9KBPUhzYnpGZcJH4gYX8p6fU7WYDh8GvLPqK''\<rparr>,
     \<lparr>ProtocolYield.protocol = ''Kamino'', ProtocolYield.pool = ''JitoSOL Multiply'',
      ProtocolYield.apy = 67.4, tvl = 45000000, risk = medium, token = ''JitoSOL'',
      address = ''KaminoJitoSoLMPqGdg7K2XqyVbw4hY8p5fU7Wh''\<rparr>]"

definition fetchMarinadeYields :: "ProtocolYield list" where
  "fetchMarinadeYields =
    [\<lparr>ProtocolYield.protocol = ''Marinade'', ProtocolYield.pool = ''mSOL Stake Pool'',
      ProtocolYield.apy = 7.8, tvl = 1200000000, risk = low, token = ''mSOL'',
      address = ''MarBmsSgKXdrN1egZf5sqe1TMai9K1rChYNDJgjq7aD''\<rparr>]"

definition fetchRaydiumYields :: "ProtocolYield list" where
  "fetchRaydiumYields =
    [\<lparr>ProtocolYield.protocol = ''Raydium'', ProtocolYield.pool = ''SOL-USDC'',
      ProtocolYield.apy = 23.4, tvl = 234000000, risk = medium, token = ''RAY-LP'',
      address = ''RaydiumSoLUSdCpQP5fU7WYDhGvLPqKJVqx9dPYF''\<rparr>,
     \<lparr>ProtocolYield.protocol = ''Raydium'', ProtocolYield.pool = ''RAY-SOL'',
      ProtocolYield.apy = 45.6, tvl = 89000000, risk = medium, token = ''RAY-LP'',
      address = ''RaydiumRAYSoLQP7fU8WYDhNKmLPqKJVqx9dP''\<rparr>,
     \<lparr>ProtocolYield.protocol = ''Raydium'', ProtocolYield.pool = ''USDC-USDT'',
      ProtocolYield.apy = 5.2, tvl = 567000000, risk = low, token = ''RAY-LP'',
      address = ''RaydiumUSDCUSDTqKJVqx9dPYFh3qR8GvLPqK''\<rparr>]"

definition getAllYields :: "ProtocolYield list" where
  "getAllYields =
     fetchJupiterYields @ fetchKaminoYields @ fetchMarinadeYields @ fetchRaydiumYields"

subsection \<open>RebalancingEngine\<close>

definition riskMap :: "risk_level \<Rightarrow> real" where
  "riskMap r = (case r of low \<Rightarrow> 20 | medium \<Rightarrow> 50 | high \<Rightarrow> 80)"

definition calculateRiskScore :: "ProtocolYield \<Rightarrow> real" where
  "calculateRiskScore y =
     (let baseRisk = riskMap (risk y);
          tvlFactor = max 0 (20 - tvl y / 10000000);
          apyFactor = (if ProtocolYield.apy y > 100 then 15 else 0)
      in min 100 (baseRisk + tvlFactor + apyFactor))"

text \<open>
  The divisor \<open>1 + riskScore / 100\<close> is never zero (lemma \<open>riskScore_divisor_pos\<close>),
  so the division below is the division of the code.
\<close>

definition calculateRiskAdjustedReturn :: "ProtocolYield \<Rightarrow> real" where
  "calculateRiskAdjustedReturn y =
     (let riskScore = calculateRiskScore y
      in ProtocolYield.apy y / (1 + riskScore / 100))"

definition targetRisks :: "risk_tolerance \<Rightarrow> risk_level list" where
  "targetRisks t =
     (case t of conservative \<Rightarrow> [low]
              | balanced \<Rightarrow> [low, medium]
              | aggressive \<Rightarrow> [low, medium, high])"

text \<open>
  \<open>Array.prototype.sort\<close> is stable, and the comparator
  \<open>(a, b) => rar(b) - rar(a)\<close> orders by descending risk-adjusted return: a stable
  insertion sort on the negated key.
\<close>

definition rankYields :: "ProtocolYield list \<Rightarrow> ProtocolYield list" where
  "rankYields ys = sort_key (\<lambda>y. - calculateRiskAdjustedReturn y) ys"

text \<open>
  The body of the loop over the positions: nothing for a position whose pool is not in
  the snapshot, otherwise the first ranked yield that qualifies (the \<open>break\<close>).
\<close>

definition analyzePosition ::
  "ProtocolYield list \<Rightarrow> ProtocolYield list \<Rightarrow> Position \<Rightarrow> RebalanceRecommendation list" where
  "analyzePosition allYields rankedYields position =
     (case List.find (\<lambda>y. ProtocolYield.protocol y = Position.protocol position
                          \<and> ProtocolYield.pool y = Position.pool position) allYields of
        None \<Rightarrow> []
      | Some currentYield \<Rightarrow>
          (case List.find (\<lambda>targetYield.
                  ProtocolYield.apy targetYield - Position.apy position > 5
                  \<and> ProtocolYield.protocol targetYield \<noteq> Position.protocol position)
                rankedYields of
             None \<Rightarrow> []
           | Some targetYield \<Rightarrow>
               (let apyDiff = ProtocolYield.apy targetYield - Position.apy position;
                    expectedGain = (Position.value position * apyDiff) / 100
                in [\<lparr>from = position, to = targetYield,
                     amount = Position.amount position * 0.5,
                     expectedGain = expectedGain\<rparr>])))"

definition analyzePositionsOn ::
  "ProtocolYield list \<Rightarrow> Position list \<Rightarrow> risk_tolerance \<Rightarrow> RebalanceRecommendation list" where
  "analyzePositionsOn allYields positions riskTolerance =
     (let eligibleYields = filter (\<lambda>y. risk y \<in> set (targetRisks riskTolerance)) allYields;
          rankedYields = rankYields eligibleYields
      in concat (map (analyzePosition allYields rankedYields) positions))"

definition analyzePositions ::
  "Position list \<Rightarrow> risk_tolerance \<Rightarrow> RebalanceRecommendation list" where
  "analyzePositions positions riskTolerance =
     analyzePositionsOn getAllYields positions riskTolerance"

text \<open>The positions the dashboard analyses.\<close>

definition mockPositions :: "Position list" where
  "mockPositions =
    [\<lparr>Position.protocol = ''Marinade'', Position.pool = ''mSOL Stake Pool'',
      Position.amount = 10, value = 1500, Position.apy = 7.8\<rparr>,
     \<lparr>Position.protocol = ''Raydium'', Position.pool = ''SOL-USDC'',
      Position.amount = 5, value = 1200, Position.apy = 23.4\<rparr>]"

section \<open>The strategy engine (lib/strategy-engine.ts)\<close>

subsection \<open>Numbers computed by the code\<close>

text \<open>
  A division of the code can have a zero divisor and an array read can be out of range, so
  a computed number is a finite real, an infinity or \<open>NaN\<close>. The operations of this
  subsection follow IEEE 754 on these values, with exact arithmetic on the finite ones;
  the model has one zero (the sign of a zero is not kept).
\<close>

datatype number = NaN | NegInfinity | Fin real | Infinity

fun num_neg :: "number \<Rightarrow> number" where
  "num_neg NaN = NaN"
| "num_neg NegInfinity = Infinity"
| "num_neg (Fin x) = Fin (- x)"
| "num_neg Infinity = NegInfinity"

fun num_add :: "number \<Rightarrow> number \<Rightarrow> number" where
  "num_add NaN b = NaN"
| "num_add a NaN = NaN"
| "num_add (Fin x) (Fin y) = Fin (x + y)"
| "num_add Infinity NegInfinity = NaN"
| "num_add NegInfinity Infinity = NaN"
| "num_add Infinity b = Infinity"
| "num_add a Infinity = Infinity"
| "num_add NegInfinity b = NegInfinity"
| "num_add a NegInfinity = NegInfinity"

definition num_sub :: "number \<Rightarrow> number \<Rightarrow> number" where
  "num_sub a b = num_add a (num_neg b)"

text \<open>The sign of an infinite result: positive when both operands have the same sign.\<close>

definition signed_inf :: "bool \<Rightarrow> number" where
  "signed_inf positive = (if positive then Infinity else NegInfinity)"

fun num_mul :: "number \<Rightarrow> number \<Rightarrow> number" where
  "num_mul NaN b = NaN"
| "num_mul a NaN = NaN"
| "num_mul (Fin x) (Fin y) = Fin (x * y)"
| "num_mul (Fin x) Infinity = (if x = 0 then NaN else signed_inf (x > 0))"
| "num_mul (Fin x) NegInfinity = (if x = 0 then NaN else signed_inf (x < 0))"
| "num_mul Infinity (Fin y) = (if y = 0 then NaN else signed_inf (y > 0))"
| "num_mul NegInfinity (Fin y) = (if y = 0 then NaN else signed_inf (y < 0))"
| "num_mul Infinity Infinity = Infinity"
| "num_mul Infinity NegInfinity = NegInfinity"
| "num_mul NegInfinity Infinity = NegInfinity"
| "num_mul NegInfinity NegInfinity = Infinity"

fun num_div :: "number \<Rightarrow> number \<Rightarrow> number" where
  "num_div NaN b = NaN"
| "num_div a NaN = NaN"
| "num_div (Fin x) (Fin y) =
     (if y = 0 then (if x = 0 then NaN else signed_inf (x > 0)) else Fin (x / y))"
| "num_div (Fin x) Infinity = Fin 0"
| "num_div (Fin x) NegInfinity = Fin 0"
| "num_div Infinity (Fin y) = signed_inf (y \<ge> 0)"
| "num_div NegInfinity (Fin y) = signed_inf (y < 0)"
| "num_div Infinity Infinity = NaN"
| "num_div Infinity NegInfinity = NaN"
| "num_div NegInfinity Infinity = NaN"
| "num_div NegInfinity NegInfinity = NaN"

text \<open>The comparisons \<open><\<close>, \<open>>\<close>, \<open><=\<close> and \<open>===\<close>: false as soon as an operand is
  \<open>NaN\<close>.\<close>

fun num_lt :: "number \<Rightarrow> number \<Rightarrow> bool" where
  "num_lt NaN b = False"
| "num_lt a NaN = False"
| "num_lt (Fin x) (Fin y) = (x < y)"
| "num_lt a NegInfinity = False"
| "num_lt Infinity b = False"
| "num_lt NegInfinity b = True"
| "num_lt a Infinity = True"

definition num_gt :: "number \<Rightarrow> number \<Rightarrow> bool" where
  "num_gt a b = num_lt b a"

definition num_le :: "number \<Rightarrow> number \<Rightarrow> bool" where
  "num_le a b = (a \<noteq> NaN \<and> b \<noteq> NaN \<and> \<not> num_lt b a)"

fun num_eq :: "number \<Rightarrow> number \<Rightarrow> bool" where
  "num_eq NaN b = False"
| "num_eq a NaN = False"
| "num_eq a b = (a = b)"

text \<open>
  \<open>Math.abs\<close>, \<open>Math.round\<close> (the nearest integer, a half rounds up), \<open>Math.sqrt\<close>
  and \<open>Math.pow(x, 2)\<close>. The square root is the one of the reals, which has no code
  equation: a term that reaches the Bollinger bands is evaluated by rewriting with the
  definitions.
\<close>

fun Math_abs :: "number \<Rightarrow> number" where
  "Math_abs NaN = NaN"
| "Math_abs (Fin x) = Fin \<bar>x\<bar>"
| "Math_abs a = Infinity"

fun Math_round :: "number \<Rightarrow> number" where
  "Math_round (Fin x) = Fin (of_int \<lfloor>x + 1 / 2\<rfloor>)"
| "Math_round a = a"

fun Math_sqrt :: "number \<Rightarrow> number" where
  "Math_sqrt (Fin x) = (if x < 0 then NaN else Fin (sqrt x))"
| "Math_sqrt Infinity = Infinity"
| "Math_sqrt a = NaN"

definition Math_pow2 :: "number \<Rightarrow> number" where
  "Math_pow2 a = num_mul a a"

subsection \<open>Binary64 rounding\<close>

text \<open>
  The numbers of the code are binary64 values and every arithmetic operation rounds its
  exact result to the nearest one, a tie going to the even significand. \<open>b64\<close> is that
  rounding on the reals: 53 significant bits, the least exponent \<open>-1022\<close>, and an
  infinity once the rounded value reaches \<open>2 ^ 1024\<close>. \<open>add64\<close>, \<open>sub64\<close>,
  \<open>mul64\<close> and \<open>div64\<close> are the four operations of the code on binary64 values.
  \<open>Math.abs\<close>, \<open>Math.round\<close>, the negation and the comparisons are exact on
  binary64 values and need no rounding.
\<close>

function log2_ge1 :: "real \<Rightarrow> nat" where
  "log2_ge1 x = (if x \<ge> 2 then Suc (log2_ge1 (x / 2)) else 0)"
  by pat_completeness auto
termination
proof (relation "measure (\<lambda>x. nat \<lfloor>x\<rfloor>)")
  show "wf (measure (\<lambda>x::real. nat \<lfloor>x\<rfloor>))" by simp
next
  fix x :: real
  assume x: "2 \<le> x"
  have "real_of_int \<lfloor>x / 2\<rfloor> \<le> x / 2" by (rule of_int_floor_le)
  moreover have "x - 1 < real_of_int \<lfloor>x\<rfloor>" by linarith
  ultimately have "real_of_int \<lfloor>x / 2\<rfloor> < real_of_int \<lfloor>x\<rfloor>" using x by linarith
  then have "\<lfloor>x / 2\<rfloor> < \<lfloor>x\<rfloor>" by simp
  moreover have "0 < \<lfloor>x\<rfloor>" using x by linarith
  ultimately show "(x / 2, x) \<in> measure (\<lambda>x. nat \<lfloor>x\<rfloor>)" by simp
qed

function log2_lt1 :: "real \<Rightarrow> nat" where
  "log2_lt1 x = (if 0 < x \<and> x < 1 then Suc (log2_lt1 (x * 2)) else 0)"
  by pat_completeness auto
termination
proof (relation "measure (\<lambda>x. nat \<lceil>1 / x\<rceil>)")
  show "wf (measure (\<lambda>x::real. nat \<lceil>1 / x\<rceil>))" by simp
next
  fix x :: real
  assume x: "0 < x \<and> x < 1"
  then have y: "1 < 1 / x" by simp
  then have c2: "2 \<le> \<lceil>1 / x\<rceil>" by linarith
  have "1 / (x * 2) = (1 / x) / 2" by simp
  also have "\<dots> \<le> real_of_int \<lceil>1 / x\<rceil> / 2" by (simp add: divide_right_mono)
  also have "\<dots> \<le> real_of_int (\<lceil>1 / x\<rceil> - 1)" using c2 by simp
  finally have "\<lceil>1 / (x * 2)\<rceil> \<le> \<lceil>1 / x\<rceil> - 1" by (rule ceiling_le)
  with c2 x show "(x * 2, x) \<in> measure (\<lambda>x. nat \<lceil>1 / x\<rceil>)" by simp
qed

text \<open>The exponent of a positive real: \<open>e\<close> with \<open>2 ^ e \<le> x < 2 ^ (e + 1)\<close>.\<close>

definition exponent :: "real \<Rightarrow> int" where
  "exponent x = (if x \<ge> 1 then int (log2_ge1 x) else - int (log2_lt1 x))"

definition pow2 :: "int \<Rightarrow> real" where
  "pow2 e = (if e \<ge> 0 then 2 ^ nat e else 1 / 2 ^ nat (- e))"

definition round_even :: "real \<Rightarrow> int" where
  "round_even x =
     (let f = \<lfloor>x\<rfloor>;
          d = x - of_int f
      in if d < 1 / 2 then f
         else if d > 1 / 2 then f + 1
         else if even f then f else f + 1)"

definition b64 :: "real \<Rightarrow> number" where
  "b64 x =
     (if x = 0 then Fin 0
      else
        (let a = \<bar>x\<bar>;
             e = max (exponent a) (- 1022);
             q = pow2 (e - 52);
             r = of_int (round_even (a / q)) * q
         in if r \<ge> 2 ^ 1024 then signed_inf (x > 0)
            else Fin (if x > 0 then r else - r)))"

definition b64_number :: "number \<Rightarrow> number" where
  "b64_number a = (case a of Fin x \<Rightarrow> b64 x | _ \<Rightarrow> a)"

definition add64 :: "number \<Rightarrow> number \<Rightarrow> number" where
  "add64 a b = b64_number (num_add a b)"

definition sub64 :: "number \<Rightarrow> number \<Rightarrow> number" where
  "sub64 a b = b64_number (num_sub a b)"

definition mul64 :: "number \<Rightarrow> number \<Rightarrow> number" where
  "mul64 a b = b64_number (num_mul a b)"

definition div64 :: "number \<Rightarrow> number \<Rightarrow> number" where
  "div64 a b = b64_number (num_div a b)"

subsection \<open>Arrays\<close>

text \<open>
  An array of prices holds finite numbers. A read \<open>xs[i]\<close> out of range gives
  \<open>undefined\<close>, here \<open>None\<close>; in arithmetic and in a comparison \<open>undefined\<close> becomes
  \<open>NaN\<close>. \<open>slice\<close> counts a negative index from the end and clamps both indices.
\<close>

definition at_index :: "real list \<Rightarrow> int \<Rightarrow> number option" where
  "at_index xs i = (if 0 \<le> i \<and> i < int (length xs) then Some (Fin (xs ! nat i)) else None)"

definition toNumber :: "number option \<Rightarrow> number" where
  "toNumber v = (case v of None \<Rightarrow> NaN | Some n \<Rightarrow> n)"

definition relative_index :: "nat \<Rightarrow> int \<Rightarrow> nat" where
  "relative_index len i = (if i < 0 then nat (max (int len + i) 0) else nat (min i (int len)))"

definition slice_from :: "'a list \<Rightarrow> int \<Rightarrow> 'a list" where
  "slice_from xs start = drop (relative_index (length xs) start) xs"

definition slice :: "'a list \<Rightarrow> int \<Rightarrow> int \<Rightarrow> 'a list" where
  "slice xs start end =
     (let k = relative_index (length xs) start;
          final = relative_index (length xs) end
      in take (final - k) (drop k xs))"

subsection \<open>Data of the strategy engine\<close>

datatype condition_type = Price | Indicator | Time | Volume

datatype indicator_kind = RSI | MACD | BB | SMA | EMA

text \<open>The operators \<open><\<close>, \<open>>\<close>, \<open>=\<close>, \<open>crosses_above\<close> and \<open>crosses_below\<close>.\<close>

datatype condition_op = Lt | Gt | Eq | crosses_above | crosses_below

datatype timeframe = TF_1m | TF_5m | TF_15m | TF_1h | TF_4h | TF_1d

datatype execution_type = market | limit

datatype trade_type = buy | sell

datatype trade_status = pending | executed | failed

record StrategyCondition =
  "type" :: condition_type
  indicator :: "indicator_kind option"
  condition :: condition_op
  "value" :: real
  timeframe :: "timeframe option"

record ParsedStrategy =
  name :: string
  asset :: string
  entry :: StrategyCondition
  exit :: StrategyCondition
  maxPosition :: real
  riskPercent :: real
  executionType :: execution_type
  stopLoss :: "real option"
  takeProfit :: "real option"

record Trade =
  id :: string
  strategy :: string
  timestamp :: real
  "type" :: trade_type
  asset :: string
  price :: real
  amount :: real
  "value" :: real
  txSignature :: "string option"
  status :: trade_status

record StrategyPerformance =
  strategyName :: string
  totalTrades :: nat
  winRate :: real
  totalPnL :: real
  totalPnLPercent :: real
  averageTrade :: real
  maxDrawdown :: real
  sharpeRatio :: number

subsection \<open>IndicatorCalculator\<close>

text \<open>
  A period is a number of samples, a natural number. The loop of \<open>calculateRSI\<close> runs
  \<open>i\<close> from 1 to the end of \<open>recentPrices\<close>; its two reads are in range.
  \<open>calculateRSI\<close> is computed in binary64: each subtraction, addition, multiplication
  and division is rounded.
\<close>

function rsi_loop :: "real list \<Rightarrow> nat \<Rightarrow> number \<times> number \<Rightarrow> number \<times> number" where
  "rsi_loop recentPrices i (gains, losses) =
     (if i < length recentPrices then
        (let change = sub64 (Fin (recentPrices ! i)) (Fin (recentPrices ! (i - 1)))
         in if num_gt change (Fin 0)
            then rsi_loop recentPrices (i + 1) (add64 gains change, losses)
            else rsi_loop recentPrices (i + 1) (gains, add64 losses (Math_abs change)))
      else (gains, losses))"
  by pat_completeness auto
termination
  by (relation "measure (\<lambda>(recentPrices, i, acc). length recentPrices - i)") auto

definition calculateRSI :: "real list \<Rightarrow> nat \<Rightarrow> number" where
  "calculateRSI prices period =
     (if length prices < period + 1 then Fin 50
      else
        (let recentPrices = slice_from prices (- int period - 1);
             (gains, losses) = rsi_loop recentPrices 1 (Fin 0, Fin 0);
             avgGain = div64 gains (Fin (real period));
             avgLoss = div64 losses (Fin (real period))
         in if num_eq avgLoss (Fin 0) then Fin 100
            else
              (let rs = div64 avgGain avgLoss;
                   rsi = sub64 (Fin 100) (div64 (Fin 100) (add64 (Fin 1) rs))
               in div64 (Math_round (mul64 rsi (Fin 100))) (Fin 100))))"

text \<open>The moving averages, the MACD and the Bollinger bands are written with exact
  arithmetic.\<close>

definition calculateSMA :: "real list \<Rightarrow> nat \<Rightarrow> number option" where
  "calculateSMA prices period =
     (if length prices < period then at_index prices (int (length prices) - 1)
      else
        (let recentPrices = slice_from prices (- int period);
             sum = foldl (\<lambda>a b. a + b) 0 recentPrices
         in Some (num_div (Fin sum) (Fin (real period)))))"

function ema_loop :: "real list \<Rightarrow> number \<Rightarrow> nat \<Rightarrow> number option \<Rightarrow> number option" where
  "ema_loop prices multiplier i ema =
     (if i < length prices then
        ema_loop prices multiplier (i + 1)
          (Some (num_add (num_mul (num_sub (Fin (prices ! i)) (toNumber ema)) multiplier)
                         (toNumber ema)))
      else ema)"
  by pat_completeness auto
termination
  by (relation "measure (\<lambda>(prices, multiplier, i, ema). length prices - i)") auto

definition calculateEMA :: "real list \<Rightarrow> nat \<Rightarrow> number option" where
  "calculateEMA prices period =
     (if length prices < period then at_index prices (int (length prices) - 1)
      else
        (let multiplier = num_div (Fin 2) (Fin (real period + 1));
             ema = calculateSMA (slice prices 0 (int period)) period
         in ema_loop prices multiplier period ema))"

record MACD_result =
  macd :: number
  signal :: number
  histogram :: number

definition calculateMACD :: "real list \<Rightarrow> MACD_result" where
  "calculateMACD prices =
     (let ema12 = calculateEMA prices 12;
          ema26 = calculateEMA prices 26;
          macd = num_sub (toNumber ema12) (toNumber ema26);
          signal = num_mul macd (Fin 0.9);
          histogram = num_sub macd signal
      in \<lparr>macd = macd, signal = signal, histogram = histogram\<rparr>)"

record BollingerBands =
  upper :: number
  middle :: "number option"
  lower :: number

definition calculateBollingerBands :: "real list \<Rightarrow> nat \<Rightarrow> real \<Rightarrow> BollingerBands" where
  "calculateBollingerBands prices period stdDev =
     (let sma = calculateSMA prices period;
          recentPrices = slice_from prices (- int period);
          squaredDiffs = map (\<lambda>p. Math_pow2 (num_sub (Fin p) (toNumber sma))) recentPrices;
          variance = num_div (foldl (\<lambda>a b. num_add a b) (Fin 0) squaredDiffs)
                             (Fin (real period));
          sd = Math_sqrt variance
      in \<lparr>upper = num_add (toNumber sma) (num_mul sd (Fin stdDev)),
          middle = sma,
          lower = num_sub (toNumber sma) (num_mul sd (Fin stdDev))\<rparr>)"

subsection \<open>StrategyExecutor\<close>

text \<open>The percent change of the price condition is computed in binary64.\<close>

definition checkCondition :: "StrategyCondition \<Rightarrow> real \<Rightarrow> real list \<Rightarrow> bool" where
  "checkCondition cond currentPrice priceHistory =
     (if StrategyCondition.type cond = Price then
        (let prev = toNumber (at_index priceHistory (int (length priceHistory) - 2));
             change = mul64 (div64 (sub64 (Fin currentPrice) prev) prev) (Fin 100)
         in case condition cond of
              Lt \<Rightarrow> num_lt change (num_neg (Fin (StrategyCondition.value cond)))
            | Gt \<Rightarrow> num_gt change (Fin (StrategyCondition.value cond))
            | _ \<Rightarrow> False)
      else if StrategyCondition.type cond = Indicator then
        (case indicator cond of
           Some RSI \<Rightarrow>
             (let rsi = calculateRSI priceHistory 14
              in case condition cond of
                   Lt \<Rightarrow> num_lt rsi (Fin (StrategyCondition.value cond))
                 | Gt \<Rightarrow> num_gt rsi (Fin (StrategyCondition.value cond))
                 | crosses_above \<Rightarrow>
                     (let prevRSI = calculateRSI (slice priceHistory 0 (- 1)) 14
                      in num_lt prevRSI (Fin (StrategyCondition.value cond))
                         \<and> num_gt rsi (Fin (StrategyCondition.value cond)))
                 | crosses_below \<Rightarrow>
                     (let prevRSI2 = calculateRSI (slice priceHistory 0 (- 1)) 14
                      in num_gt prevRSI2 (Fin (StrategyCondition.value cond))
                         \<and> num_lt rsi (Fin (StrategyCondition.value cond)))
                 | _ \<Rightarrow> False)
         | Some MACD \<Rightarrow>
             (let macd = calculateMACD priceHistory
              in num_gt (histogram macd) (Fin 0))
         | Some BB \<Rightarrow>
             (let bb = calculateBollingerBands priceHistory 20 2
              in if StrategyCondition.value cond > 0
                 then num_gt (Fin currentPrice) (upper bb)
                 else num_lt (Fin currentPrice) (lower bb))
         | _ \<Rightarrow> False)
      else False)"

text \<open>
  The executor's state is the map \<open>priceHistory\<close> from asset symbols to price arrays,
  empty when the executor is constructed. (A parameter whose name is also the name of a
  record field carries a prime.)
\<close>

type_synonym price_histories = "string \<rightharpoonup> real list"

definition updatePriceHistory :: "price_histories \<Rightarrow> string \<Rightarrow> real \<Rightarrow> price_histories" where
  "updatePriceHistory priceHistory asset' price' =
     (let m = (if priceHistory asset' = None then priceHistory(asset' \<mapsto> [])
               else priceHistory);
          history = (case m asset' of Some h \<Rightarrow> h | None \<Rightarrow> []) @ [price'];
          history' = (if length history > 200 then tl history else history)
      in m(asset' \<mapsto> history'))"

definition getPriceHistory :: "price_histories \<Rightarrow> string \<Rightarrow> real list" where
  "getPriceHistory priceHistory asset' =
     (case priceHistory asset' of Some h \<Rightarrow> h | None \<Rightarrow> [])"

text \<open>A run of the executor: the calls of \<open>updatePriceHistory\<close> in order.\<close>

fun updates :: "price_histories \<Rightarrow> (string \<times> real) list \<Rightarrow> price_histories" where
  "updates priceHistory [] = priceHistory"
| "updates priceHistory ((asset', price') # calls) =
     updates (updatePriceHistory priceHistory asset' price') calls"

subsection \<open>PnLTracker\<close>

text \<open>The tracker's state is the map \<open>trades\<close> from strategy names to ledgers.\<close>

type_synonym trade_ledgers = "string \<rightharpoonup> Trade list"

definition recordTrade :: "trade_ledgers \<Rightarrow> Trade \<Rightarrow> trade_ledgers" where
  "recordTrade trades trade =
     (let m = (if trades (Trade.strategy trade) = None
               then trades(Trade.strategy trade \<mapsto> []) else trades)
      in m(Trade.strategy trade \<mapsto>
             (case m (Trade.strategy trade) of Some ts \<Rightarrow> ts | None \<Rightarrow> []) @ [trade]))"

definition getTrades :: "trade_ledgers \<Rightarrow> string \<Rightarrow> Trade list" where
  "getTrades trades strategyName' =
     (case trades strategyName' of Some ts \<Rightarrow> ts | None \<Rightarrow> [])"

text \<open>
  The pairing loop: \<open>i\<close> advances by two and stops at a trade that has no successor. Its
  state is \<open>totalPnL\<close>, \<open>wins\<close> and \<open>tradePnLs\<close>.
\<close>

function pnl_loop :: "Trade list \<Rightarrow> nat \<Rightarrow> real \<times> nat \<times> real list \<Rightarrow> real \<times> nat \<times> real list" where
  "pnl_loop trades i (totalPnL', wins, tradePnLs) =
     (if i < length trades then
        (if i + 1 \<ge> length trades then (totalPnL', wins, tradePnLs)
         else
           (let b = trades ! i;
                s = trades ! (i + 1)
            in if Trade.type b = buy \<and> Trade.type s = sell then
                 (let pnl = (price s - price b) * Trade.amount b
                  in pnl_loop trades (i + 2)
                       (totalPnL' + pnl, (if pnl > 0 then wins + 1 else wins),
                        tradePnLs @ [pnl]))
               else pnl_loop trades (i + 2) (totalPnL', wins, tradePnLs)))
      else (totalPnL', wins, tradePnLs))"
  by pat_completeness auto
termination
  by (relation "measure (\<lambda>(trades, i, acc). length trades - i)") auto

text \<open>One round of the drawdown loop, on \<open>maxDrawdown\<close>, \<open>peak\<close> and \<open>cumulative\<close>.
  The divisor \<open>Math.max(peak, 1)\<close> is at least 1.\<close>

definition drawdown_step :: "real \<times> real \<times> real \<Rightarrow> real \<Rightarrow> real \<times> real \<times> real" where
  "drawdown_step st pnl =
     (case st of (maxDrawdown', peak, cumulative) \<Rightarrow>
        (let cumulative2 = cumulative + pnl;
             peak2 = (if cumulative2 > peak then cumulative2 else peak);
             drawdown = ((peak2 - cumulative2) / max peak2 1) * 100;
             maxDrawdown2 = (if drawdown > maxDrawdown' then drawdown else maxDrawdown')
         in (maxDrawdown2, peak2, cumulative2)))"

definition calculateStdDev :: "real list \<Rightarrow> number" where
  "calculateStdDev values =
     (let mean = num_div (Fin (foldl (\<lambda>a b. a + b) 0 values)) (Fin (real (length values)));
          squaredDiffs = map (\<lambda>v. Math_pow2 (num_sub (Fin v) mean)) values;
          variance = num_div (foldl (\<lambda>a b. num_add a b) (Fin 0) squaredDiffs)
                             (Fin (real (length values)))
      in Math_sqrt variance)"

text \<open>
  In \<open>calculatePerformance\<close> the divisions by \<open>completedTrades\<close> are guarded, and the
  divisor \<open>trades[0]?.value || 1\<close> is the value of the first trade, or 1 when that is 0.
\<close>

definition calculatePerformance :: "trade_ledgers \<Rightarrow> string \<Rightarrow> StrategyPerformance" where
  "calculatePerformance ledgers strategyName' =
     (let trades = (case ledgers strategyName' of Some ts \<Rightarrow> ts | None \<Rightarrow> [])
      in if length trades = 0 then
           \<lparr>strategyName = strategyName', totalTrades = 0, winRate = 0, totalPnL = 0,
            totalPnLPercent = 0, averageTrade = 0, maxDrawdown = 0, sharpeRatio = Fin 0\<rparr>
         else
           (let (totalPnL', wins, tradePnLs) = pnl_loop trades 0 (0, 0, []);
                completedTrades = length trades div 2;
                winRate' = (if completedTrades > 0
                            then (real wins / real completedTrades) * 100 else 0);
                averageTrade' = (if completedTrades > 0
                                 then totalPnL' / real completedTrades else 0);
                (maxDrawdown', peak, cumulative) = foldl drawdown_step (0, 0, 0) tradePnLs;
                avgReturn = averageTrade';
                returns = tradePnLs;
                stdDev = (if length returns > 0 then calculateStdDev returns else Fin 1);
                sharpeRatio' = (if num_gt stdDev (Fin 0)
                                then num_div (Fin avgReturn) stdDev else Fin 0);
                firstValue = (if Trade.value (trades ! 0) = 0 then 1
                              else Trade.value (trades ! 0))
            in \<lparr>strategyName = strategyName', totalTrades = length trades,
                winRate = winRate', totalPnL = totalPnL',
                totalPnLPercent = (totalPnL' / firstValue) * 100,
                averageTrade = averageTrade', maxDrawdown = maxDrawdown',
                sharpeRatio = sharpeRatio'\<rparr>))"

subsection \<open>Strings and regular expressions\<close>

text \<open>
  Strings are ASCII. \<open>toLowerCase\<close> maps the letters A to Z, \<open>includes\<close> is the substring
  test.
\<close>

definition lower_char :: "char \<Rightarrow> char" where
  "lower_char c =
     (if (65::nat) \<le> of_char c \<and> of_char c \<le> (90::nat)
      then char_of (of_char c + (32::nat)) else c)"

definition upper_char :: "char \<Rightarrow> char" where
  "upper_char c =
     (if (97::nat) \<le> of_char c \<and> of_char c \<le> (122::nat)
      then char_of (of_char c - (32::nat)) else c)"

definition toLowerCase :: "string \<Rightarrow> string" where
  "toLowerCase s = map lower_char s"

fun startsWith :: "string \<Rightarrow> string \<Rightarrow> bool" where
  "startsWith s [] = True"
| "startsWith [] (c # t) = False"
| "startsWith (x # s) (c # t) = (x = c \<and> startsWith s t)"

fun string_includes :: "string \<Rightarrow> string \<Rightarrow> bool" where
  "string_includes [] t = (t = [])"
| "string_includes (x # s) t = (startsWith (x # s) t \<or> string_includes s t)"

definition is_digit :: "char \<Rightarrow> bool" where
  "is_digit c = ((48::nat) \<le> of_char c \<and> of_char c \<le> (57::nat))"

definition is_space :: "char \<Rightarrow> bool" where
  "is_space c = (of_char c \<in> {9, 10, 11, 12, 13, 32::nat})"

text \<open>
  The patterns of the parser use literals, \<open>\d\<close>, \<open>\s\<close>, sequence, alternative, the
  greedy \<open>*\<close>, \<open>+\<close> and \<open>?\<close>, \<open>{n}\<close>, non-capturing groups and one capturing group.
  \<open>rmatch r ci s\<close> lists the ways \<open>r\<close> matches a prefix of \<open>s\<close>, in the order in which
  a backtracking matcher tries them: the rest of the string and the text of the capturing
  group. The flag \<open>ci\<close> is the \<open>i\<close> of the pattern. An iteration of a star that
  matches the empty string is rejected; no group stands under a star in these patterns,
  so a star returns no capture.
\<close>

datatype regex =
    Eps
  | Chr char
  | Digit
  | Space
  | Seq regex regex
  | Alt regex regex
  | Star regex
  | Opt regex
  | Group regex

type_synonym match_state = "string \<times> string option"

fun star_iter :: "(string \<Rightarrow> match_state list) \<Rightarrow> string \<Rightarrow> match_state list" where
  "star_iter f s =
     concat (map (\<lambda>st. if length (fst st) < length s then star_iter f (fst st) else [])
                 (f s))
     @ [(s, None)]"

primrec rmatch :: "regex \<Rightarrow> bool \<Rightarrow> string \<Rightarrow> match_state list" where
  "rmatch Eps ci s = [(s, None)]"
| "rmatch (Chr c) ci s =
     (case s of [] \<Rightarrow> []
      | x # t \<Rightarrow> if (if ci then upper_char x = upper_char c else x = c)
                 then [(t, None)] else [])"
| "rmatch Digit ci s = (case s of [] \<Rightarrow> [] | x # t \<Rightarrow> if is_digit x then [(t, None)] else [])"
| "rmatch Space ci s = (case s of [] \<Rightarrow> [] | x # t \<Rightarrow> if is_space x then [(t, None)] else [])"
| "rmatch (Seq a b) ci s =
     concat (map (\<lambda>st1. map (\<lambda>st2. (fst st2, case snd st2 of None \<Rightarrow> snd st1
                                                   | Some g \<Rightarrow> Some g))
                            (rmatch b ci (fst st1)))
                 (rmatch a ci s))"
| "rmatch (Alt a b) ci s = rmatch a ci s @ rmatch b ci s"
| "rmatch (Star a) ci s = star_iter (rmatch a ci) s"
| "rmatch (Opt a) ci s = rmatch a ci s @ [(s, None)]"
| "rmatch (Group a) ci s =
     map (\<lambda>st. (fst st, Some (take (length s - length (fst st)) s))) (rmatch a ci s)"

text \<open>
  \<open>s.match(r)\<close> for a pattern without the flag \<open>g\<close>: the first way to match at the
  leftmost position where there is one, as the matched text and the text of group 1, or
  \<open>null\<close>, here \<open>None\<close>.
\<close>

definition match_at :: "regex \<Rightarrow> bool \<Rightarrow> string \<Rightarrow> (string \<times> string option) option" where
  "match_at r ci s =
     (case rmatch r ci s of
        [] \<Rightarrow> None
      | st # _ \<Rightarrow> Some (take (length s - length (fst st)) s, snd st))"

fun string_match :: "string \<Rightarrow> regex \<Rightarrow> bool \<Rightarrow> (string \<times> string option) option" where
  "string_match [] r ci = match_at r ci []"
| "string_match (x # t) r ci =
     (case match_at r ci (x # t) of
        Some m \<Rightarrow> Some m
      | None \<Rightarrow> string_match t r ci)"

text \<open>\<open>m[1]\<close>, the text of group 1; every pattern here has its group on every path.\<close>

definition group1 :: "string \<times> string option \<Rightarrow> string" where
  "group1 m = (case snd m of Some g \<Rightarrow> g | None \<Rightarrow> [])"

fun seqs :: "regex list \<Rightarrow> regex" where
  "seqs [] = Eps"
| "seqs [r] = r"
| "seqs (r # rs) = Seq r (seqs rs)"

definition lit :: "string \<Rightarrow> regex" where
  "lit s = seqs (map Chr s)"

definition plus :: "regex \<Rightarrow> regex" where
  "plus r = Seq r (Star r)"

text \<open>
  \<open>parseInt\<close> and \<open>parseFloat\<close> read a decimal prefix. The parser applies them to the
  text of a group that starts with \<open>\d+\<close>, so the result \<open>NaN\<close> of a string without a
  leading digit does not arise; the model gives 0 there.
\<close>

definition digits_value :: "string \<Rightarrow> nat" where
  "digits_value s = foldl (\<lambda>n c. 10 * n + (of_char c - 48)) 0 s"

definition parseInt :: "string \<Rightarrow> real" where
  "parseInt s = real (digits_value (takeWhile is_digit s))"

definition parseFloat :: "string \<Rightarrow> real" where
  "parseFloat s =
     (let whole = takeWhile is_digit s
      in case dropWhile is_digit s of
           c # rest \<Rightarrow>
             if c = CHR ''.'' then
               (let frac = takeWhile is_digit rest
                in real (digits_value whole) + real (digits_value frac) / 10 ^ length frac)
             else real (digits_value whole)
         | [] \<Rightarrow> real (digits_value whole))"

subsection \<open>StrategyParser\<close>

datatype phase = Entry | Exit

definition extractAsset :: "string \<Rightarrow> string" where
  "extractAsset input =
     (if string_includes input ''sol'' then ''SOL/USDC''
      else if string_includes input ''btc'' \<or> string_includes input ''bitcoin'' then ''BTC/USD''
      else if string_includes input ''eth'' \<or> string_includes input ''ethereum'' then ''ETH/USD''
      else ''SOL/USDC'')"

text \<open>\<open>/rsi\s*(?:below|<|less than)\s*(\d+)/i\<close>\<close>

definition rsi_below_re :: regex where
  "rsi_below_re =
     seqs [lit ''rsi'', Star Space,
           Alt (lit ''below'') (Alt (Chr CHR ''<'') (lit ''less than'')),
           Star Space, Group (plus Digit)]"

text \<open>\<open>/rsi\s*(?:above|>|greater than)\s*(\d+)/i\<close>\<close>

definition rsi_above_re :: regex where
  "rsi_above_re =
     seqs [lit ''rsi'', Star Space,
           Alt (lit ''above'') (Alt (Chr CHR ''>'') (lit ''greater than'')),
           Star Space, Group (plus Digit)]"

text \<open>\<open>/rsi\s*(?:crosses?)\s*(\d+)/i\<close>\<close>

definition rsi_crosses_re :: regex where
  "rsi_crosses_re =
     seqs [lit ''rsi'', Star Space, Seq (lit ''crosse'') (Opt (Chr CHR ''s'')),
           Star Space, Group (plus Digit)]"

text \<open>\<open>/(\d+)%/\<close>\<close>

definition percent_re :: regex where
  "percent_re = seqs [Group (plus Digit), Chr CHR ''%'']"

text \<open>\<open>/\$?\s*(\d+(?:,\d{3})*(?:\.\d{2})?)/\<close>\<close>

definition max_position_re :: regex where
  "max_position_re =
     seqs [Opt (Chr CHR ''$''), Star Space,
           Group (seqs [plus Digit,
                        Star (seqs [Chr CHR '','', Digit, Digit, Digit]),
                        Opt (seqs [Chr CHR ''.'', Digit, Digit])])]"

text \<open>\<open>/(\d+)%\s*(?:of|risk)/i\<close>\<close>

definition risk_percent_re :: regex where
  "risk_percent_re =
     seqs [Group (plus Digit), Chr CHR ''%'', Star Space, Alt (lit ''of'') (lit ''risk'')]"

text \<open>\<open>/stop\s*loss\s*(?:at\s*)?(\d+)%/i\<close>\<close>

definition stop_loss_re :: regex where
  "stop_loss_re =
     seqs [lit ''stop'', Star Space, lit ''loss'', Star Space,
           Opt (seqs [lit ''at'', Star Space]), Group (plus Digit), Chr CHR ''%'']"

text \<open>\<open>/(?:take\s*profit|sell\s*when\s*up)\s*(?:at\s*)?(\d+)%/i\<close>\<close>

definition take_profit_re :: regex where
  "take_profit_re =
     seqs [Alt (seqs [lit ''take'', Star Space, lit ''profit''])
               (seqs [lit ''sell'', Star Space, lit ''when'', Star Space, lit ''up'']),
           Star Space, Opt (seqs [lit ''at'', Star Space]), Group (plus Digit),
           Chr CHR ''%'']"

text \<open>The chain \<open>a || b || c\<close> of three matches: the first that is not \<open>null\<close>.\<close>

definition or_else :: "'a option \<Rightarrow> 'a option \<Rightarrow> 'a option" where
  "or_else a b = (case a of Some x \<Rightarrow> Some x | None \<Rightarrow> b)"

definition default_condition :: "phase \<Rightarrow> StrategyCondition" where
  "default_condition ph =
     \<lparr>StrategyCondition.type = Price, indicator = None,
      condition = (if ph = Entry then Lt else Gt),
      StrategyCondition.value = 100, timeframe = Some TF_15m\<rparr>"

text \<open>
  \<open>extractCondition\<close> is a cascade of four blocks; a block that does not return falls
  through to the next one. Each definition below is one block followed by the rest.
\<close>

definition bollinger_block :: "string \<Rightarrow> phase \<Rightarrow> StrategyCondition" where
  "bollinger_block input ph =
     (if string_includes input ''bollinger'' \<or> string_includes input ''bb'' then
        (let cond = (if string_includes input ''upper'' then Gt else Lt)
         in \<lparr>StrategyCondition.type = Indicator, indicator = Some BB, condition = cond,
             StrategyCondition.value = (if string_includes input ''upper'' then 2 else - 2),
             timeframe = Some TF_1h\<rparr>)
      else default_condition ph)"

definition macd_block :: "string \<Rightarrow> phase \<Rightarrow> StrategyCondition" where
  "macd_block input ph =
     (if string_includes input ''macd'' then
        \<lparr>StrategyCondition.type = Indicator, indicator = Some MACD,
         condition = crosses_above, StrategyCondition.value = 0, timeframe = Some TF_1h\<rparr>
      else bollinger_block input ph)"

definition price_block :: "string \<Rightarrow> phase \<Rightarrow> StrategyCondition" where
  "price_block input ph =
     (if string_includes input ''price'' \<or> string_includes input ''drops''
         \<or> string_includes input ''rises'' then
        (case string_match input percent_re False of
           Some priceMatch \<Rightarrow>
             (let v = parseInt (group1 priceMatch);
                  cond = (if string_includes input ''drop'' \<or> string_includes input ''below''
                          then Lt else Gt)
              in \<lparr>StrategyCondition.type = Price, indicator = None, condition = cond,
                  StrategyCondition.value = v, timeframe = Some TF_15m\<rparr>)
         | None \<Rightarrow> macd_block input ph)
      else macd_block input ph)"

definition extractCondition :: "string \<Rightarrow> phase \<Rightarrow> StrategyCondition" where
  "extractCondition input ph =
     (if string_includes input ''rsi'' then
        (case or_else (string_match input rsi_below_re True)
                (or_else (string_match input rsi_above_re True)
                         (string_match input rsi_crosses_re True)) of
           Some rsiMatch \<Rightarrow>
             (let v = parseInt (group1 rsiMatch);
                  cond = (if string_includes input ''below'' \<or> string_includes input ''<''
                          then Lt
                          else if string_includes input ''above'' \<or> string_includes input ''>''
                          then Gt
                          else if string_includes input ''crosses'' then crosses_above
                          else Gt)
              in \<lparr>StrategyCondition.type = Indicator, indicator = Some RSI, condition = cond,
                  StrategyCondition.value = v, timeframe = Some TF_15m\<rparr>)
         | None \<Rightarrow> price_block input ph)
      else price_block input ph)"

definition extractMaxPosition :: "string \<Rightarrow> real" where
  "extractMaxPosition input =
     (case string_match input max_position_re False of
        Some m \<Rightarrow> parseFloat (filter (\<lambda>c. c \<noteq> CHR '','') (group1 m))
      | None \<Rightarrow> 500)"

definition extractRiskPercent :: "string \<Rightarrow> real" where
  "extractRiskPercent input =
     (case string_match input risk_percent_re True of
        Some m \<Rightarrow> parseInt (group1 m)
      | None \<Rightarrow> 10)"

definition extractStopLoss :: "string \<Rightarrow> real option" where
  "extractStopLoss input =
     (case string_match input stop_loss_re True of
        Some m \<Rightarrow> Some (parseInt (group1 m))
      | None \<Rightarrow> None)"

definition extractTakeProfit :: "string \<Rightarrow> real option" where
  "extractTakeProfit input =
     (case string_match input take_profit_re True of
        Some m \<Rightarrow> Some (parseInt (group1 m))
      | None \<Rightarrow> None)"

definition generateStrategyName :: "string \<Rightarrow> string" where
  "generateStrategyName input =
     (let asset' = extractAsset (toLowerCase input);
          assetSymbol = takeWhile (\<lambda>c. c \<noteq> CHR ''/'') asset'
      in if string_includes (toLowerCase input) ''rsi'' then assetSymbol @ '' RSI Strategy''
         else if string_includes (toLowerCase input) ''macd''
         then assetSymbol @ '' MACD Strategy''
         else if string_includes (toLowerCase input) ''bollinger''
         then assetSymbol @ '' BB Strategy''
         else if string_includes (toLowerCase input) ''dca''
              \<or> string_includes (toLowerCase input) ''dollar cost''
         then assetSymbol @ '' DCA Strategy''
         else assetSymbol @ '' Custom Strategy'')"

definition parseStrategy :: "string \<Rightarrow> ParsedStrategy" where
  "parseStrategy input =
     (let normalized = toLowerCase input;
          asset' = extractAsset normalized;
          entry' = extractCondition normalized Entry;
          exit' = extractCondition normalized Exit;
          maxPosition' = extractMaxPosition normalized;
          riskPercent' = extractRiskPercent normalized;
          stopLoss' = extractStopLoss normalized;
          takeProfit' = extractTakeProfit normalized;
          executionType' = (if string_includes normalized ''limit'' then limit else market)
      in \<lparr>name = generateStrategyName input, ParsedStrategy.asset = asset',
          entry = entry', exit = exit', maxPosition = maxPosition',
          riskPercent = riskPercent', executionType = executionType',
          stopLoss = stopLoss', takeProfit = takeProfit'\<rparr>)"

text \<open>The example strategy of the page and of the README, and its lower-cased text.\<close>

definition example_input :: string where
  "example_input =
     ''Buy SOL when RSI drops below 30, sell when it crosses 70, max position $500''"

definition example_normalized :: string where
  "example_normalized =
     ''buy sol when rsi drops below 30, sell when it crosses 70, max position $500''"

subsection \<open>The simple moving average in binary64\<close>



subsection \<open>The relative strength index as the specification words it\<close>

text \<open>
  The specification speaks of the average gain and the average loss over the last
  \<open>period\<close> deltas, and of a result rounded to 2 decimal places. These definitions
  follow its words, in the arithmetic of the code, for the comparison with
  \<open>calculateRSI\<close>: the deltas of a sequence are the differences of neighbouring samples,
  the last \<open>period\<close> deltas are those of the last \<open>period + 1\<close> samples, a gain is a
  positive delta and a loss the absolute value of any other one.
\<close>

definition spec_deltas :: "real list \<Rightarrow> number list" where
  "spec_deltas xs = map (\<lambda>(a, b). sub64 (Fin b) (Fin a)) (zip xs (tl xs))"

definition spec_last_deltas :: "real list \<Rightarrow> nat \<Rightarrow> number list" where
  "spec_last_deltas prices period =
     spec_deltas (drop (length prices - (period + 1)) prices)"

definition spec_gains :: "number list \<Rightarrow> number" where
  "spec_gains ds = foldl (\<lambda>g d. if num_gt d (Fin 0) then add64 g d else g) (Fin 0) ds"

definition spec_losses :: "number list \<Rightarrow> number" where
  "spec_losses ds =
     foldl (\<lambda>l d. if num_gt d (Fin 0) then l else add64 l (Math_abs d)) (Fin 0) ds"

definition spec_avg_gain :: "real list \<Rightarrow> nat \<Rightarrow> number" where
  "spec_avg_gain prices period =
     div64 (spec_gains (spec_last_deltas prices period)) (Fin (real period))"

definition spec_avg_loss :: "real list \<Rightarrow> nat \<Rightarrow> number" where
  "spec_avg_loss prices period =
     div64 (spec_losses (spec_last_deltas prices period)) (Fin (real period))"

definition spec_round2 :: "number \<Rightarrow> number" where
  "spec_round2 x = div64 (Math_round (mul64 x (Fin 100))) (Fin 100)"

text \<open>\<open>100 - 100 / (1 + avgGain / avgLoss)\<close>, rounded to 2 decimal places.\<close>

definition spec_rsi :: "number \<Rightarrow> number \<Rightarrow> number" where
  "spec_rsi avgGain avgLoss =
     spec_round2 (sub64 (Fin 100) (div64 (Fin 100) (add64 (Fin 1) (div64 avgGain avgLoss))))"

subsection \<open>The percent change as the specification words it\<close>

text \<open>
  The percent change of a price against an earlier one, in the arithmetic of the code:
  the difference, divided by the earlier price, times 100.
\<close>

definition spec_percent_change :: "real \<Rightarrow> real \<Rightarrow> number" where
  "spec_percent_change current earlier =
     mul64 (div64 (sub64 (Fin current) (Fin earlier)) (Fin earlier)) (Fin 100)"

subsection \<open>The pairing of trades as the specification words it\<close>

text \<open>
  The specification pairs the trades of a ledger by index parity, the trades \<open>2i\<close> and
  \<open>2i + 1\<close> for every \<open>i\<close> below half the length; a pair is realized when it is a buy
  followed by a sell, and then has the profit \<open>(sellPrice - buyPrice) * buyAmount\<close>.
  These definitions follow its words, for the comparison with \<open>calculatePerformance\<close>.
\<close>

definition spec_pairs :: "Trade list \<Rightarrow> (Trade \<times> Trade) list" where
  "spec_pairs ts = map (\<lambda>i. (ts ! (2 * i), ts ! (2 * i + 1))) [0..<length ts div 2]"

definition spec_pair_pnl :: "Trade \<times> Trade \<Rightarrow> real option" where
  "spec_pair_pnl p =
     (if Trade.type (fst p) = buy \<and> Trade.type (snd p) = sell
      then Some ((price (snd p) - price (fst p)) * Trade.amount (fst p))
      else None)"

definition spec_pnls :: "Trade list \<Rightarrow> real list" where
  "spec_pnls ts = List.map_filter spec_pair_pnl (spec_pairs ts)"

subsection \<open>Sample data\<close>


text \<open>A buy at 100 and a sell at 110, of the amount 1.\<close>

definition buy_at_100 :: Trade where
  "buy_at_100 =
     \<lparr>id = ''trade_1'', strategy = ''SOL RSI Strategy'', timestamp = 1,
      Trade.type = buy, Trade.asset = ''SOL/USDC'', price = 100, Trade.amount = 1,
      Trade.value = 100, txSignature = None, status = executed\<rparr>"

definition sell_at_110 :: Trade where
  "sell_at_110 =
     \<lparr>id = ''trade_2'', strategy = ''SOL RSI Strategy'', timestamp = 2,
      Trade.type = sell, Trade.asset = ''SOL/USDC'', price = 110, Trade.amount = 1,
      Trade.value = 110, txSignature = None, status = executed\<rparr>"


text \<open>The binary64 value \<open>2 ^ 1023\<close>, half the least power of 2 that overflows.\<close>

definition huge :: real where
  "huge = 2 ^ 1023"

text \<open>The recursive equations of the loops are unfolded on demand only.\<close>

declare rsi_loop.simps [simp del]
declare ema_loop.simps [simp del]
declare pnl_loop.simps [simp del]
declare star_iter.simps [simp del]
declare log2_ge1.simps [simp del]
declare log2_lt1.simps [simp del]

section \<open>Properties of the rebalancing engine\<close>

lemma riskMap_bounds: "20 \<le> riskMap r \<and> riskMap r \<le> 80"
  by (cases r) (simp_all add: riskMap_def)

lemma riskScore_lower: "20 \<le> calculateRiskScore y"
  unfolding calculateRiskScore_def Let_def
  using riskMap_bounds [of "risk y"] by (auto simp: max_def min_def)

lemma riskScore_divisor_pos: "0 < 1 + calculateRiskScore y / 100"
  using riskScore_lower [of y] by simp

text \<open>
  C6. The risk score is \<open>base(risk) + max(0, 20 - tvl/10,000,000) + (15 if apy > 100 else 0)\<close>
  clamped to the interval from 0 to 100, with base 20, 50, 80 for low, medium, high; it
  always lies between 0 and 100. (The code clamps from above only; the lower clamp of the
  claim never acts, the sum being at least 20. The property needs no assumption on the
  tvl.)
\<close>

theorem C6_risk_score:
  "calculateRiskScore y =
     max 0 (min 100
       ((case risk y of low \<Rightarrow> 20 | medium \<Rightarrow> 50 | high \<Rightarrow> 80)
        + max 0 (20 - tvl y / 10000000)
        + (if ProtocolYield.apy y > 100 then 15 else 0)))
   \<and> 0 \<le> calculateRiskScore y \<and> calculateRiskScore y \<le> 100"
proof -
  have lo: "20 \<le> calculateRiskScore y" by (rule riskScore_lower)
  have eq: "calculateRiskScore y =
      min 100 ((case risk y of low \<Rightarrow> 20 | medium \<Rightarrow> 50 | high \<Rightarrow> 80)
        + max 0 (20 - tvl y / 10000000)
        + (if ProtocolYield.apy y > 100 then 15 else 0))"
    by (simp add: calculateRiskScore_def riskMap_def Let_def)
  have hi: "calculateRiskScore y \<le> 100"
    by (simp add: calculateRiskScore_def Let_def)
  from lo eq have "calculateRiskScore y = max 0 (calculateRiskScore y)" by simp
  with eq lo hi show ?thesis by simp
qed

lemma find_Some_holds: "List.find P xs = Some x \<Longrightarrow> P x \<and> x \<in> set xs"
  by (induction xs) (auto split: if_splits)

lemma analyzePosition_props:
  assumes "r \<in> set (analyzePosition allYields ranked p)"
  shows "from r = p
       \<and> to r \<in> set ranked
       \<and> ProtocolYield.protocol (to r) \<noteq> Position.protocol p
       \<and> ProtocolYield.apy (to r) - Position.apy p > 5
       \<and> RebalanceRecommendation.amount r = Position.amount p * 0.5"
proof (cases "List.find (\<lambda>y. ProtocolYield.protocol y = Position.protocol p
                          \<and> ProtocolYield.pool y = Position.pool p) allYields")
  case None
  with assms show ?thesis by (simp add: analyzePosition_def)
next
  case (Some currentYield)
  show ?thesis
  proof (cases "List.find (\<lambda>targetYield.
                  ProtocolYield.apy targetYield - Position.apy p > 5
                  \<and> ProtocolYield.protocol targetYield \<noteq> Position.protocol p) ranked")
    case None
    with Some assms show ?thesis by (simp add: analyzePosition_def)
  next
    case (Some targetYield)
    from find_Some_holds [OF Some]
    have t: "ProtocolYield.apy targetYield - Position.apy p > 5"
      "ProtocolYield.protocol targetYield \<noteq> Position.protocol p"
      "targetYield \<in> set ranked" by simp_all
    from assms Some \<open>List.find _ allYields = Some currentYield\<close>
    have "r = \<lparr>from = p, to = targetYield,
               RebalanceRecommendation.amount = Position.amount p * 0.5,
               expectedGain = (Position.value p
                 * (ProtocolYield.apy targetYield - Position.apy p)) / 100\<rparr>"
      by (simp add: analyzePosition_def Let_def)
    with t show ?thesis by simp
  qed
qed

lemma analyzePosition_from:
  "map from (analyzePosition allYields ranked p) = [] \<or>
   map from (analyzePosition allYields ranked p) = [p]"
  by (simp add: analyzePosition_def Let_def split: option.splits)

lemma subseq_concat_from:
  "subseq (map from (concat (map (analyzePosition allYields ranked) ps))) ps"
proof (induction ps)
  case Nil
  then show ?case by simp
next
  case (Cons p ps)
  from analyzePosition_from [of allYields ranked p] show ?case
  proof
    assume "map from (analyzePosition allYields ranked p) = []"
    with Cons show ?thesis by (simp add: list_emb_Cons)
  next
    assume "map from (analyzePosition allYields ranked p) = [p]"
    with Cons show ?thesis by simp
  qed
qed

text \<open>
  C5. Every recommendation of \<open>analyzePositions\<close> comes from one of the given positions,
  has a target in another protocol than that position, whose APY exceeds the position's
  APY by more than 5, and moves half of the amount held; the source positions of the
  recommendations form a subsequence of the list of positions, so that a position gives
  at most one recommendation.
\<close>

theorem C5_recommendations:
  "(\<forall>r \<in> set (analyzePositions positions riskTolerance).
       from r \<in> set positions
     \<and> ProtocolYield.protocol (to r) \<noteq> Position.protocol (from r)
     \<and> ProtocolYield.apy (to r) - Position.apy (from r) > 5
     \<and> RebalanceRecommendation.amount r = Position.amount (from r) * 0.5)
   \<and> subseq (map from (analyzePositions positions riskTolerance)) positions"
proof
  show "\<forall>r \<in> set (analyzePositions positions riskTolerance).
       from r \<in> set positions
     \<and> ProtocolYield.protocol (to r) \<noteq> Position.protocol (from r)
     \<and> ProtocolYield.apy (to r) - Position.apy (from r) > 5
     \<and> RebalanceRecommendation.amount r = Position.amount (from r) * 0.5"
  proof
    fix r assume "r \<in> set (analyzePositions positions riskTolerance)"
    then obtain p where p: "p \<in> set positions"
      and r: "r \<in> set (analyzePosition getAllYields
                 (rankYields (filter (\<lambda>y. risk y \<in> set (targetRisks riskTolerance)) getAllYields)) p)"
      by (auto simp: analyzePositions_def analyzePositionsOn_def Let_def)
    from analyzePosition_props [OF r] p
    show "from r \<in> set positions
     \<and> ProtocolYield.protocol (to r) \<noteq> Position.protocol (from r)
     \<and> ProtocolYield.apy (to r) - Position.apy (from r) > 5
     \<and> RebalanceRecommendation.amount r = Position.amount (from r) * 0.5" by simp
  qed
next
  show "subseq (map from (analyzePositions positions riskTolerance)) positions"
    by (simp add: analyzePositions_def analyzePositionsOn_def Let_def subseq_concat_from)
qed

theorem C5_recommendations_witness:
  "analyzePositions mockPositions balanced \<noteq> []
   \<and> from (hd (analyzePositions mockPositions balanced)) \<in> set mockPositions
   \<and> ProtocolYield.protocol (to (hd (analyzePositions mockPositions balanced)))
       \<noteq> Position.protocol (from (hd (analyzePositions mockPositions balanced)))
   \<and> ProtocolYield.apy (to (hd (analyzePositions mockPositions balanced)))
       - Position.apy (from (hd (analyzePositions mockPositions balanced))) > 5
   \<and> RebalanceRecommendation.amount (hd (analyzePositions mockPositions balanced))
       = Position.amount (from (hd (analyzePositions mockPositions balanced))) * 0.5
   \<and> subseq (map from (analyzePositions mockPositions balanced)) mockPositions"
proof -
  have ne: "analyzePositions mockPositions balanced \<noteq> []" by code_simp
  then have "hd (analyzePositions mockPositions balanced)
      \<in> set (analyzePositions mockPositions balanced)" by simp
  with C5_recommendations [of mockPositions balanced] ne show ?thesis by blast
qed

section \<open>Properties of the price history\<close>

lemma getPriceHistory_update_same:
  "getPriceHistory (updatePriceHistory m a p) a =
     (let h = getPriceHistory m a @ [p] in if length h > 200 then tl h else h)"
  by (cases "m a") (simp_all add: getPriceHistory_def updatePriceHistory_def Let_def)

lemma getPriceHistory_update_other:
  "b \<noteq> a \<Longrightarrow> getPriceHistory (updatePriceHistory m a p) b = getPriceHistory m b"
  by (simp add: getPriceHistory_def updatePriceHistory_def Let_def)

lemma keep_step:
  assumes "length h \<le> 200"
  shows "(let k = h @ [p] in if length k > 200 then tl k else k)
         = drop (length (h @ [p]) - 200) (h @ [p])"
proof (cases "length h = 200")
  case True
  then have "length (h @ [p]) - 200 = 1" by simp
  then have "drop (length (h @ [p]) - 200) (h @ [p]) = tl (h @ [p])"
    by (simp only: drop_Suc One_nat_def drop_0)
  with True show ?thesis by (simp add: Let_def)
next
  case False
  with assms have "length h < 200" by simp
  then show ?thesis by (simp add: Let_def)
qed

lemma keep_keep_append:
  "drop (length (drop (length xs - n) xs @ ys) - n) (drop (length xs - n) xs @ ys)
   = drop (length (xs @ ys) - n) (xs @ ys)"
proof (cases "length xs \<le> n")
  case True
  then show ?thesis by simp
next
  case False
  then have "length (drop (length xs - n) xs @ ys) - n = length ys"
    by simp
  moreover from False have "length (xs @ ys) - n = (length xs - n) + length ys" by simp
  ultimately show ?thesis using False by (simp add: drop_append add.commute)
qed

lemma updates_history:
  assumes "length (getPriceHistory m a) \<le> 200"
  shows "getPriceHistory (updates m calls) a =
     drop (length (getPriceHistory m a @ map snd (filter (\<lambda>c. fst c = a) calls)) - 200)
          (getPriceHistory m a @ map snd (filter (\<lambda>c. fst c = a) calls))"
  using assms
proof (induction calls arbitrary: m)
  case Nil
  then show ?case by simp
next
  case (Cons c calls)
  obtain a' p where c: "c = (a', p)" by (cases c)
  show ?case
  proof (cases "a' = a")
    case True
    let ?h = "getPriceHistory m a"
    have step: "getPriceHistory (updatePriceHistory m a p) a
                 = drop (length (?h @ [p]) - 200) (?h @ [p])"
      using keep_step [OF Cons.prems] by (simp only: getPriceHistory_update_same)
    then have len: "length (getPriceHistory (updatePriceHistory m a p) a) \<le> 200"
      by simp
    from Cons.IH [OF len] step True c
    show ?thesis
      using keep_keep_append [of "?h @ [p]" 200 "map snd (filter (\<lambda>c. fst c = a) calls)"]
      by simp
  next
    case False
    then have same: "getPriceHistory (updatePriceHistory m a' p) a = getPriceHistory m a"
      by (simp add: getPriceHistory_update_other)
    with Cons.prems have "length (getPriceHistory (updatePriceHistory m a' p) a) \<le> 200"
      by simp
    from Cons.IH [OF this] same False c show ?thesis by simp
  qed
qed

text \<open>
  C7. After any sequence of calls of \<open>updatePriceHistory\<close> on a new executor, the
  history of every asset has at most 200 samples and is the last 200 of the prices that
  arrived for that asset, in the order of arrival; a call appends the price and, when the
  history then has more than 200 samples, removes the oldest one.
\<close>

theorem C7_price_history_cap:
  "length (getPriceHistory (updates Map.empty calls) a) \<le> 200
   \<and> getPriceHistory (updates Map.empty calls) a
       = (let arrived = map snd (filter (\<lambda>c. fst c = a) calls)
          in drop (length arrived - 200) arrived)
   \<and> getPriceHistory (updatePriceHistory m a p) a
       = (let h = getPriceHistory m a @ [p] in if length h > 200 then tl h else h)"
proof -
  have "length (getPriceHistory Map.empty a) \<le> 200" by (simp add: getPriceHistory_def)
  from updates_history [OF this, of calls]
  have eq: "getPriceHistory (updates Map.empty calls) a
       = (let arrived = map snd (filter (\<lambda>c. fst c = a) calls)
          in drop (length arrived - 200) arrived)"
    by (simp add: getPriceHistory_def Let_def)
  then have "length (getPriceHistory (updates Map.empty calls) a) \<le> 200"
    by (simp add: Let_def)
  with eq getPriceHistory_update_same show ?thesis by blast
qed

section \<open>Properties of the binary64 rounding\<close>

text \<open>
  The rounding is what it is meant to be: the exponent brackets its argument between two
  powers of 2, and the rounded significand is a nearest integer, an even one at a tie.
\<close>

lemma log2_ge1_bounds:
  assumes "1 \<le> x"
  shows "2 ^ log2_ge1 x \<le> x \<and> x < 2 ^ Suc (log2_ge1 x)"
  using assms
proof (induction x rule: log2_ge1.induct)
  case (1 x)
  show ?case
  proof (cases "2 \<le> x")
    case True
    then have "1 \<le> x / 2" by simp
    from "1.IH" [OF True this] True show ?thesis
      by (subst (1 2) log2_ge1.simps) (simp add: field_simps)
  next
    case False
    with "1.prems" show ?thesis by (subst (1 2) log2_ge1.simps) simp
  qed
qed

lemma log2_lt1_bounds:
  assumes "0 < x" and "x < 1"
  shows "1 \<le> x * 2 ^ log2_lt1 x \<and> x * 2 ^ log2_lt1 x < 2"
  using assms
proof (induction x rule: log2_lt1.induct)
  case (1 x)
  then have c: "0 < x \<and> x < 1" by simp
  show ?case
  proof (cases "x * 2 < 1")
    case True
    from c have "0 < x * 2" by simp
    from "1.IH" [OF c this True] c show ?thesis
      by (subst (1 2) log2_lt1.simps) (simp add: mult.assoc)
  next
    case False
    then have "log2_lt1 (x * 2) = 0" by (subst log2_lt1.simps) simp
    with False c show ?thesis by (subst (1 2) log2_lt1.simps) simp
  qed
qed

lemma exponent_bounds:
  assumes "0 < x"
  shows "pow2 (exponent x) \<le> x \<and> x < pow2 (exponent x + 1)"
proof (cases "1 \<le> x")
  case True
  with log2_ge1_bounds [OF True] show ?thesis
    by (simp add: exponent_def pow2_def nat_add_distrib)
next
  case False
  then have lt: "x < 1" by simp
  from assms lt have pos: "0 < log2_lt1 x" by (subst log2_lt1.simps) simp
  then obtain k where k: "log2_lt1 x = Suc k" by (cases "log2_lt1 x") simp_all
  from log2_lt1_bounds [OF assms lt] k
  have b: "1 \<le> x * 2 ^ Suc k" "x * 2 ^ Suc k < 2" by simp_all
  have p: "(0::real) < 2 ^ Suc k" by simp
  from b(1) p have lo: "1 / 2 ^ Suc k \<le> x" by (simp add: field_simps)
  from b(2) have hi: "x < 1 / 2 ^ k" by (simp add: field_simps)
  have e: "exponent x = - int (Suc k)" using lt k by (simp add: exponent_def)
  have "nat (int k + 1) = Suc k" by simp
  then have "pow2 (exponent x) = 1 / 2 ^ Suc k" unfolding e pow2_def by simp
  moreover have "pow2 (exponent x + 1) = 1 / 2 ^ k"
    unfolding e pow2_def by (cases k) (simp_all add: nat_add_distrib)
  ultimately show ?thesis using lo hi by simp
qed

lemma round_even_nearest: "\<bar>real_of_int (round_even x) - x\<bar> \<le> 1 / 2"
proof -
  have "real_of_int \<lfloor>x\<rfloor> \<le> x" "x < real_of_int \<lfloor>x\<rfloor> + 1" by linarith+
  then show ?thesis by (auto simp: round_even_def Let_def abs_le_iff)
qed

lemma round_even_tie:
  assumes "x - real_of_int \<lfloor>x\<rfloor> = 1 / 2"
  shows "even (round_even x)"
  using assms by (simp add: round_even_def Let_def)



lemma pow2_neg: "pow2 (- numeral k) = 1 / 2 ^ numeral k"
  by (simp add: pow2_def)

lemma log2_lt1_unfold:
  "log2_lt1 x = (if 0 < x \<and> x < 1 then Suc (log2_lt1 (x * 2)) else 0)"
  by (rule log2_lt1.simps)

text \<open>Powers of 2 by exponent, and bounds on the exponent and on the rounded significand.\<close>

lemma pow2_powi: "pow2 e = 2 powi e"
  by (simp add: pow2_def power_int_def inverse_eq_divide power_one_over)

lemma pow2_pos: "0 < pow2 e"
  by (simp add: pow2_powi)

lemma pow2_add: "pow2 (a + b) = pow2 a * pow2 b"
  by (simp add: pow2_powi power_int_add)

lemma pow2_less_iff: "pow2 a < pow2 b \<longleftrightarrow> a < b"
proof
  assume l: "pow2 a < pow2 b"
  show "a < b"
  proof (rule ccontr)
    assume "\<not> a < b"
    then have "b \<le> a" by simp
    then have "(2::real) powi b \<le> 2 powi a" by (rule power_int_increasing) simp
    with l show False by (simp add: pow2_powi)
  qed
next
  assume "a < b"
  then have "(2::real) powi a < 2 powi b" by (rule power_int_strict_increasing) simp
  then show "pow2 a < pow2 b" by (simp add: pow2_powi)
qed

lemma pow2_le_iff: "pow2 a \<le> pow2 b \<longleftrightarrow> a \<le> b"
  using pow2_less_iff [of b a] by (simp add: not_less [symmetric])

lemma pow2_nat: "pow2 (int n) = 2 ^ n"
  by (simp add: pow2_def)

lemma exponent_le:
  assumes "0 < x" and "x < pow2 (k + 1)"
  shows "exponent x \<le> k"
proof -
  from exponent_bounds [OF assms(1)] assms(2)
  have "pow2 (exponent x) < pow2 (k + 1)" by linarith
  then show ?thesis by (simp add: pow2_less_iff)
qed

lemma exponent_ge:
  assumes "0 < x" and "pow2 k \<le> x"
  shows "k \<le> exponent x"
proof -
  from exponent_bounds [OF assms(1)] assms(2)
  have "pow2 k < pow2 (exponent x + 1)" by linarith
  then show ?thesis by (simp add: pow2_less_iff)
qed

lemma round_even_le:
  assumes "x \<le> real_of_int n"
  shows "round_even x \<le> n"
proof -
  from assms have f: "\<lfloor>x\<rfloor> \<le> n" by (simp add: floor_le_iff)
  show ?thesis
  proof (cases "\<lfloor>x\<rfloor> = n")
    case True
    with assms have "x - real_of_int \<lfloor>x\<rfloor> \<le> 0" by simp
    then show ?thesis using True by (simp add: round_even_def Let_def)
  next
    case False
    with f have "\<lfloor>x\<rfloor> + 1 \<le> n" by simp
    then show ?thesis by (auto simp: round_even_def Let_def)
  qed
qed

lemma round_even_ge:
  assumes "real_of_int n \<le> x"
  shows "n \<le> round_even x"
proof -
  from assms have "n \<le> \<lfloor>x\<rfloor>" by (simp add: le_floor_iff)
  then show ?thesis by (auto simp: round_even_def Let_def)
qed

lemma b64_minus: "b64 (- x) = num_neg (b64 x)"
proof (cases "x = 0")
  case True
  then show ?thesis by (simp add: b64_def)
next
  case False
  then show ?thesis
    by (cases "0 < x") (auto simp: b64_def Let_def signed_inf_def)
qed

lemma b64_nonneg:
  assumes "0 \<le> x"
  shows "b64 x = Infinity \<or> (\<exists>r. b64 x = Fin r \<and> 0 \<le> r)"
proof (cases "x = 0")
  case True
  then show ?thesis by (simp add: b64_def)
next
  case False
  with assms have pos: "0 < x" by simp
  have "0 \<le> real_of_int (round_even (\<bar>x\<bar> / pow2 (max (exponent \<bar>x\<bar>) (- 1022) - 52)))"
  proof -
    have "0 \<le> \<bar>x\<bar> / pow2 (max (exponent \<bar>x\<bar>) (- 1022) - 52)"
      using pow2_pos by (simp add: less_imp_le)
    then have "0 \<le> round_even (\<bar>x\<bar> / pow2 (max (exponent \<bar>x\<bar>) (- 1022) - 52))"
      using round_even_ge [of 0] by simp
    then show ?thesis by simp
  qed
  then have "0 \<le> real_of_int (round_even (\<bar>x\<bar> / pow2 (max (exponent \<bar>x\<bar>) (- 1022) - 52)))
              * pow2 (max (exponent \<bar>x\<bar>) (- 1022) - 52)"
    using pow2_pos by (simp add: less_imp_le)
  with pos show ?thesis by (simp add: b64_def Let_def signed_inf_def)
qed

text \<open>
  A binary64 value bounds the rounding of everything below it: \<open>B\<close> is a multiple of the
  unit of its own exponent \<open>eB\<close>, and so of the unit of every smaller exponent.
\<close>

lemma b64_le:
  assumes "0 \<le> x" and "x \<le> B"
    and "B = real_of_int M * pow2 (eB - 52)"
    and "B < pow2 (eB + 1)" and "- 1022 \<le> eB" and "B < 2 ^ 1024"
  shows "\<exists>r. b64 x = Fin r \<and> 0 \<le> r \<and> r \<le> B"
proof (cases "x = 0")
  case True
  with assms(1,2) show ?thesis by (simp add: b64_def)
next
  case False
  with assms(1) have pos: "0 < x" by simp
  let ?e = "max (exponent x) (- 1022)"
  let ?q = "pow2 (?e - 52)"
  let ?r = "real_of_int (round_even (x / ?q)) * ?q"
  from pos assms(2,4) have "exponent x \<le> eB" by (intro exponent_le) simp_all
  with assms(5) have e: "?e \<le> eB" by simp
  then obtain d where d: "eB - ?e = int d" using nonneg_int_cases [of "eB - ?e"] by auto
  have "pow2 (eB - 52) = pow2 (int d) * ?q"
  proof -
    have "eB - 52 = int d + (?e - 52)" using d by simp
    then show ?thesis by (simp only: pow2_add)
  qed
  then have B: "B = real_of_int (M * 2 ^ d) * ?q"
    using assms(3) by (simp add: pow2_nat)
  have q: "0 < ?q" by (rule pow2_pos)
  from assms(2) B q have "x / ?q \<le> real_of_int (M * 2 ^ d)"
    by (simp add: pos_divide_le_eq)
  then have "round_even (x / ?q) \<le> M * 2 ^ d" by (rule round_even_le)
  then have "real_of_int (round_even (x / ?q)) \<le> real_of_int (M * 2 ^ d)" by linarith
  with q have "?r \<le> real_of_int (M * 2 ^ d) * ?q" by (simp add: mult_right_mono less_imp_le)
  with B have rB: "?r \<le> B" by simp
  from pos q have "0 \<le> x / ?q" by (simp add: less_imp_le)
  then have "0 \<le> round_even (x / ?q)" using round_even_ge [of 0] by simp
  then have "0 \<le> real_of_int (round_even (x / ?q))" by simp
  with q have r0: "0 \<le> ?r" by (simp add: less_imp_le)
  from rB assms(6) have lt: "\<not> 2 ^ 1024 \<le> ?r" by linarith
  have a: "\<bar>x\<bar> = x" using pos by simp
  have "b64 x = Fin ?r"
    unfolding b64_def Let_def a using pos lt by simp
  with r0 rB show ?thesis by blast
qed

lemma b64_ge_one:
  assumes "1 \<le> x"
  shows "b64 x = Infinity \<or> (\<exists>r. b64 x = Fin r \<and> 1 \<le> r)"
proof -
  from assms have pos: "0 < x" by simp
  let ?e = "max (exponent x) (- 1022)"
  let ?q = "pow2 (?e - 52)"
  let ?r = "real_of_int (round_even (x / ?q)) * ?q"
  have "pow2 0 \<le> x" using assms by (simp add: pow2_def)
  from exponent_ge [OF pos this] have e0: "0 \<le> exponent x" .
  then have e: "?e = exponent x" by simp
  have q: "0 < ?q" by (rule pow2_pos)
  have split: "pow2 (exponent x) = pow2 52 * ?q"
  proof -
    have "exponent x = 52 + (?e - 52)" using e by simp
    then have "pow2 (exponent x) = pow2 (52 + (?e - 52))" by simp
    then show ?thesis by (simp only: pow2_add)
  qed
  from exponent_bounds [OF pos] have "pow2 (exponent x) \<le> x" by simp
  with split q have "pow2 52 \<le> x / ?q" by (simp add: pos_le_divide_eq)
  then have "real_of_int (2 ^ 52) \<le> x / ?q" by (simp add: pow2_def)
  then have "2 ^ 52 \<le> round_even (x / ?q)" by (rule round_even_ge)
  then have "real_of_int (2 ^ 52) \<le> real_of_int (round_even (x / ?q))" by linarith
  with q have "real_of_int (2 ^ 52) * ?q \<le> ?r" by (simp add: mult_right_mono less_imp_le)
  then have "pow2 52 * ?q \<le> ?r" by (simp add: pow2_def)
  with split have "pow2 (exponent x) \<le> ?r" by simp
  moreover from e0 have "pow2 0 \<le> pow2 (exponent x)" by (simp only: pow2_le_iff)
  ultimately have r1: "1 \<le> ?r" by (simp add: pow2_def)
  have a: "\<bar>x\<bar> = x" using pos by simp
  have "b64 x = (if 2 ^ 1024 \<le> ?r then Infinity else Fin ?r)"
    unfolding b64_def Let_def a using pos by (simp add: signed_inf_def)
  with r1 show ?thesis by (cases "2 ^ 1024 \<le> ?r") simp_all
qed

text \<open>
  The rounding of a positive real whose exponent and rounded significand are known, for
  the evaluation of examples.
\<close>

lemma b64_value:
  assumes "0 < x" and "exponent x = e" and "- 1022 \<le> e"
    and "round_even (x / pow2 (e - 52)) = m"
    and "real_of_int m * pow2 (e - 52) \<le> 2 ^ 64"
  shows "b64 x = Fin (real_of_int m * pow2 (e - 52))"
proof -
  have a: "\<bar>x\<bar> = x" using assms(1) by simp
  have e: "max (exponent x) (- 1022) = e" using assms(2,3) by simp
  have nz: "x \<noteq> 0" using assms(1) by simp
  have "(2::real) ^ 64 < 2 ^ 1024" by (rule power_strict_increasing) simp_all
  with assms(5) have lt: "\<not> 2 ^ 1024 \<le> real_of_int m * pow2 (e - 52)" by linarith
  show ?thesis
    unfolding b64_def Let_def a e assms(4) using assms(1) nz lt by simp
qed

lemma log2_ge1_unfold:
  "log2_ge1 x = (if x \<ge> 2 then Suc (log2_ge1 (x / 2)) else 0)"
  by (rule log2_ge1.simps)


lemma b64_zero: "b64 0 = Fin 0"
  by (simp add: b64_def)

lemma b64_not_NaN: "b64 x \<noteq> NaN"
  by (simp add: b64_def Let_def signed_inf_def)

text \<open>A power of 2 is a binary64 value up to the exponent 1023, and overflows from 1024 on.\<close>

lemma exponent_pow2: "exponent (pow2 k) = k"
proof (rule antisym)
  show "exponent (pow2 k) \<le> k"
    by (rule exponent_le) (simp_all add: pow2_pos pow2_less_iff)
  show "k \<le> exponent (pow2 k)"
    by (rule exponent_ge) (simp_all add: pow2_pos)
qed

lemma round_even_of_int: "round_even (real_of_int n) = n"
  by (simp add: round_even_def)

lemma pow2_significand:
  "real_of_int (round_even (pow2 k / pow2 (k - 52))) * pow2 (k - 52) = pow2 k"
proof -
  have "pow2 k = pow2 52 * pow2 (k - 52)"
    using pow2_add [of 52 "k - 52"] by simp
  moreover have "pow2 52 = real_of_int (2 ^ 52)" by (simp add: pow2_def)
  ultimately have "pow2 k / pow2 (k - 52) = real_of_int (2 ^ 52)"
    using pow2_pos [of "k - 52"] by simp
  then have "round_even (pow2 k / pow2 (k - 52)) = 2 ^ 52"
    by (simp only: round_even_of_int)
  with \<open>pow2 k = pow2 52 * pow2 (k - 52)\<close> \<open>pow2 52 = real_of_int (2 ^ 52)\<close>
  show ?thesis by simp
qed

lemma pow2_1024: "pow2 1024 = 2 ^ 1024"
  using pow2_nat [of 1024] by simp

lemma b64_pow2:
  assumes "- 1022 \<le> k"
  shows "b64 (pow2 k) = (if 1024 \<le> k then Infinity else Fin (pow2 k))"
proof -
  have a: "\<bar>pow2 k\<bar> = pow2 k" using pow2_pos [of k] by simp
  have e: "max (exponent (pow2 k)) (- 1022) = k" using assms by (simp add: exponent_pow2)
  have nz: "pow2 k \<noteq> 0" "0 < pow2 k" using pow2_pos [of k] by simp_all
  have c: "(2 ^ 1024 \<le> pow2 k) = (1024 \<le> k)"
    unfolding pow2_1024 [symmetric] by (rule pow2_le_iff)
  show ?thesis
    unfolding b64_def Let_def a e pow2_significand c using nz
    by (simp add: signed_inf_def)
qed

section \<open>Properties of the moving averages\<close>


lemma slice_from_neg:
  assumes "1 \<le> k" and "k \<le> length xs"
  shows "slice_from xs (- int k) = drop (length xs - k) xs"
proof -
  from assms have "relative_index (length xs) (- int k) = length xs - k"
    by (simp add: relative_index_def nat_diff_distrib')
  then show ?thesis by (simp add: slice_from_def)
qed









section \<open>The simple moving average in binary64\<close>










section \<open>Properties of the price conditions\<close>

lemma checkCondition_price:
  assumes "StrategyCondition.type c = Price"
  shows "checkCondition c cur hist =
     (let prev = toNumber (at_index hist (int (length hist) - 2));
          change = mul64 (div64 (sub64 (Fin cur) prev) prev) (Fin 100)
      in case condition c of
           Lt \<Rightarrow> num_lt change (num_neg (Fin (StrategyCondition.value c)))
         | Gt \<Rightarrow> num_gt change (Fin (StrategyCondition.value c))
         | _ \<Rightarrow> False)"
  using assms by (simp add: checkCondition_def)

lemma change_short_history:
  assumes "length hist < 2"
  shows "mul64 (div64 (sub64 (Fin cur)
            (toNumber (at_index hist (int (length hist) - 2))))
            (toNumber (at_index hist (int (length hist) - 2)))) (Fin 100) = NaN"
proof -
  from assms have "at_index hist (int (length hist) - 2) = None"
    by (simp add: at_index_def)
  then show ?thesis
    by (simp add: toNumber_def num_sub_def sub64_def div64_def mul64_def b64_number_def)
qed

lemma change_long_history:
  assumes "2 \<le> length hist"
  shows "mul64 (div64 (sub64 (Fin cur)
            (toNumber (at_index hist (int (length hist) - 2))))
            (toNumber (at_index hist (int (length hist) - 2)))) (Fin 100)
         = spec_percent_change cur (hist ! (length hist - 2))"
proof -
  from assms have "nat (int (length hist) - 2) = length hist - 2" by simp
  with assms have "at_index hist (int (length hist) - 2)
      = Some (Fin (hist ! (length hist - 2)))"
    by (simp add: at_index_def)
  then show ?thesis by (simp add: toNumber_def spec_percent_change_def)
qed

text \<open>
  C10. For a condition of type price and a history of fewer than two samples,
  \<open>checkCondition\<close> returns false, whatever the operator, the value and the current
  price: the read of the sample before the last one is out of range and the change is
  \<open>NaN\<close>.
\<close>

theorem C10_short_history_false:
  assumes "StrategyCondition.type c = Price" and "length hist < 2"
  shows "\<not> checkCondition c cur hist"
  using assms(1) change_short_history [OF assms(2), of cur]
  by (cases "condition c") (simp_all add: checkCondition_price Let_def num_gt_def)

theorem C10_short_history_false_witness:
  "StrategyCondition.type \<lparr>StrategyCondition.type = Price, indicator = None, condition = Lt,
       StrategyCondition.value = 5, timeframe = None\<rparr> = Price
   \<and> length [94::real] < 2
   \<and> \<not> checkCondition \<lparr>StrategyCondition.type = Price, indicator = None, condition = Lt,
       StrategyCondition.value = 5, timeframe = None\<rparr> 94 [94]"
  using C10_short_history_false [of "\<lparr>StrategyCondition.type = Price, indicator = None,
       condition = Lt, StrategyCondition.value = 5, timeframe = None\<rparr>" "[94]" 94]
  by simp

text \<open>The roundings of three examples of the percent change.\<close>

lemma b64_at_1: "b64 (6) = Fin (6)"
proof -
  have e: "exponent (6) = 2"
    by (simp add: exponent_def log2_ge1_unfold log2_lt1_unfold)
  have m: "round_even (6 / pow2 (2 - 52)) = 6755399441055744"
    by (simp add: pow2_neg round_even_def)
  have "b64 (6) = Fin (real_of_int 6755399441055744 * pow2 (2 - 52))"
    by (rule b64_value [OF _ e _ m]) (simp_all add: pow2_neg)
  then show ?thesis by (simp add: pow2_neg)
qed

lemma b64_at_2: "b64 (3 / 50) = Fin (1080863910568919 / 18014398509481984)"
proof -
  have e: "exponent (3 / 50) = - 5"
    by (simp add: exponent_def log2_ge1_unfold log2_lt1_unfold)
  have m: "round_even (3 / 50 / pow2 (- 5 - 52)) = 8646911284551352"
    by (simp add: pow2_neg round_even_def)
  have "b64 (3 / 50) = Fin (real_of_int 8646911284551352 * pow2 (- 5 - 52))"
    by (rule b64_value [OF _ e _ m]) (simp_all add: pow2_neg)
  then show ?thesis by (simp add: pow2_neg)
qed

lemma b64_at_3: "b64 (27021597764222975 / 4503599627370496) = Fin (6)"
proof -
  have e: "exponent (27021597764222975 / 4503599627370496) = 2"
    by (simp add: exponent_def log2_ge1_unfold log2_lt1_unfold)
  have m: "round_even (27021597764222975 / 4503599627370496 / pow2 (2 - 52)) = 6755399441055744"
    by (simp add: pow2_neg round_even_def)
  have "b64 (27021597764222975 / 4503599627370496) = Fin (real_of_int 6755399441055744 * pow2 (2 - 52))"
    by (rule b64_value [OF _ e _ m]) (simp_all add: pow2_neg)
  then show ?thesis by (simp add: pow2_neg)
qed

lemma b64_at_4: "b64 (11) = Fin (11)"
proof -
  have e: "exponent (11) = 3"
    by (simp add: exponent_def log2_ge1_unfold log2_lt1_unfold)
  have m: "round_even (11 / pow2 (3 - 52)) = 6192449487634432"
    by (simp add: pow2_neg round_even_def)
  have "b64 (11) = Fin (real_of_int 6192449487634432 * pow2 (3 - 52))"
    by (rule b64_value [OF _ e _ m]) (simp_all add: pow2_neg)
  then show ?thesis by (simp add: pow2_neg)
qed

lemma b64_at_5: "b64 (11 / 20) = Fin (2476979795053773 / 4503599627370496)"
proof -
  have e: "exponent (11 / 20) = - 1"
    by (simp add: exponent_def log2_ge1_unfold log2_lt1_unfold)
  have m: "round_even (11 / 20 / pow2 (- 1 - 52)) = 4953959590107546"
    by (simp add: pow2_neg round_even_def)
  have "b64 (11 / 20) = Fin (real_of_int 4953959590107546 * pow2 (- 1 - 52))"
    by (rule b64_value [OF _ e _ m]) (simp_all add: pow2_neg)
  then show ?thesis by (simp add: pow2_neg)
qed

lemma b64_at_6: "b64 (61924494876344325 / 1125899906842624) = Fin (7740561859543041 / 140737488355328)"
proof -
  have e: "exponent (61924494876344325 / 1125899906842624) = 5"
    by (simp add: exponent_def log2_ge1_unfold log2_lt1_unfold)
  have m: "round_even (61924494876344325 / 1125899906842624 / pow2 (5 - 52)) = 7740561859543041"
    by (simp add: pow2_neg round_even_def)
  have "b64 (61924494876344325 / 1125899906842624) = Fin (real_of_int 7740561859543041 * pow2 (5 - 52))"
    by (rule b64_value [OF _ e _ m]) (simp_all add: pow2_neg)
  then show ?thesis by (simp add: pow2_neg)
qed

lemma b64_at_7: "b64 (7) = Fin (7)"
proof -
  have e: "exponent (7) = 2"
    by (simp add: exponent_def log2_ge1_unfold log2_lt1_unfold)
  have m: "round_even (7 / pow2 (2 - 52)) = 7881299347898368"
    by (simp add: pow2_neg round_even_def)
  have "b64 (7) = Fin (real_of_int 7881299347898368 * pow2 (2 - 52))"
    by (rule b64_value [OF _ e _ m]) (simp_all add: pow2_neg)
  then show ?thesis by (simp add: pow2_neg)
qed

lemma b64_at_8: "b64 (7 / 100) = Fin (1261007895663739 / 18014398509481984)"
proof -
  have e: "exponent (7 / 100) = - 4"
    by (simp add: exponent_def log2_ge1_unfold log2_lt1_unfold)
  have m: "round_even (7 / 100 / pow2 (- 4 - 52)) = 5044031582654956"
    by (simp add: pow2_neg round_even_def)
  have "b64 (7 / 100) = Fin (real_of_int 5044031582654956 * pow2 (- 4 - 52))"
    by (rule b64_value [OF _ e _ m]) (simp_all add: pow2_neg)
  then show ?thesis by (simp add: pow2_neg)
qed

lemma b64_at_9: "b64 (31525197391593475 / 4503599627370496) = Fin (7881299347898369 / 1125899906842624)"
proof -
  have e: "exponent (31525197391593475 / 4503599627370496) = 2"
    by (simp add: exponent_def log2_ge1_unfold log2_lt1_unfold)
  have m: "round_even (31525197391593475 / 4503599627370496 / pow2 (2 - 52)) = 7881299347898369"
    by (simp add: pow2_neg round_even_def)
  have "b64 (31525197391593475 / 4503599627370496) = Fin (real_of_int 7881299347898369 * pow2 (2 - 52))"
    by (rule b64_value [OF _ e _ m]) (simp_all add: pow2_neg)
  then show ?thesis by (simp add: pow2_neg)
qed

text \<open>The percent changes of three examples, in binary64.\<close>

lemma percent_change_94_100: "spec_percent_change 94 100 = Fin (- 6)"
  by (simp add: spec_percent_change_def sub64_def div64_def mul64_def b64_number_def
      num_sub_def b64_minus b64_at_1 b64_at_2 b64_at_3)

lemma percent_change_31_20:
  "spec_percent_change 31 20 = Fin (7740561859543041 / 140737488355328)"
  by (simp add: spec_percent_change_def sub64_def div64_def mul64_def b64_number_def
      num_sub_def b64_minus b64_at_4 b64_at_5 b64_at_6)

lemma percent_change_93_100:
  "spec_percent_change 93 100 = Fin (- (7881299347898369 / 1125899906842624))"
  by (simp add: spec_percent_change_def sub64_def div64_def mul64_def b64_number_def
      num_sub_def b64_minus b64_at_7 b64_at_8 b64_at_9)

lemma percent_change_100_100: "spec_percent_change 100 100 = Fin 0"
  by (simp add: spec_percent_change_def sub64_def div64_def mul64_def b64_number_def
      num_sub_def b64_def)

text \<open>
  C2, as stated, fails: the change is taken from the current price, not from the last
  sample of the history. With the history \<open>[100, 94]\<close>, the value 5 and the current
  price 100 the last two samples fall by 6 percent, and the condition \<open><\<close> is false.
\<close>

theorem C2_counterexample:
  "\<not> (checkCondition \<lparr>StrategyCondition.type = Price, indicator = None, condition = Lt,
            StrategyCondition.value = 5, timeframe = None\<rparr> 100 [100, 94]
        \<longleftrightarrow> ((94 - 100) / 100 * 100 < - (5::real)))"
proof -
  have "2 \<le> length [100, 94::real]" by simp
  from change_long_history [OF this, of 100]
  have "\<not> checkCondition \<lparr>StrategyCondition.type = Price, indicator = None,
            condition = Lt, StrategyCondition.value = 5, timeframe = None\<rparr> 100 [100, 94]"
    by (simp add: checkCondition_price Let_def percent_change_100_100)
  then show ?thesis by simp
qed

text \<open>
  C2, amended. For a condition of type price and a history of at least two samples,
  \<open>checkCondition\<close> takes the percent change of the current price against the sample
  before the last one, in the binary64 arithmetic of the code; the operator \<open><\<close> holds
  exactly when that change is less than minus the value, \<open>>\<close> exactly when it is greater
  than the value, and every other operator gives false. When the current price is the last
  sample this is the change between the last two samples.
\<close>

theorem C2_price_condition:
  assumes "StrategyCondition.type c = Price"
    and "2 \<le> length hist"
  shows "(condition c = Lt \<longrightarrow>
            checkCondition c cur hist
            = num_lt (spec_percent_change cur (hist ! (length hist - 2)))
                     (Fin (- StrategyCondition.value c)))
       \<and> (condition c = Gt \<longrightarrow>
            checkCondition c cur hist
            = num_gt (spec_percent_change cur (hist ! (length hist - 2)))
                     (Fin (StrategyCondition.value c)))
       \<and> (condition c \<noteq> Lt \<and> condition c \<noteq> Gt \<longrightarrow> \<not> checkCondition c cur hist)
       \<and> (cur = last hist \<longrightarrow>
            spec_percent_change cur (hist ! (length hist - 2))
            = spec_percent_change (hist ! (length hist - 1)) (hist ! (length hist - 2)))"
proof -
  have last: "cur = last hist \<longrightarrow> cur = hist ! (length hist - 1)"
    using assms(2) by (cases hist) (simp_all add: last_conv_nth)
  show ?thesis
    using assms(1) change_long_history [OF assms(2), of cur] last
    by (cases "condition c") (simp_all add: checkCondition_price Let_def)
qed

theorem C2_price_condition_witness:
  "StrategyCondition.type \<lparr>StrategyCondition.type = Price, indicator = None, condition = Lt,
       StrategyCondition.value = 5, timeframe = None\<rparr> = Price
   \<and> 2 \<le> length [100, 94::real]
   \<and> (94::real) = last [100, 94]
   \<and> checkCondition \<lparr>StrategyCondition.type = Price, indicator = None, condition = Lt,
       StrategyCondition.value = 5, timeframe = None\<rparr> 94 [100, 94]
   \<and> checkCondition \<lparr>StrategyCondition.type = Price, indicator = None, condition = Gt,
       StrategyCondition.value = 55, timeframe = None\<rparr> 31 [20, 31]
   \<and> checkCondition \<lparr>StrategyCondition.type = Price, indicator = None, condition = Lt,
       StrategyCondition.value = 7, timeframe = None\<rparr> 93 [100, 93]"
proof -
  have a: "checkCondition \<lparr>StrategyCondition.type = Price, indicator = None,
       condition = Lt, StrategyCondition.value = 5, timeframe = None\<rparr> 94 [100, 94]"
    using C2_price_condition [of "\<lparr>StrategyCondition.type = Price, indicator = None,
       condition = Lt, StrategyCondition.value = 5, timeframe = None\<rparr>" "[100, 94]" 94]
    by (simp add: percent_change_94_100)
  have b: "checkCondition \<lparr>StrategyCondition.type = Price, indicator = None,
       condition = Gt, StrategyCondition.value = 55, timeframe = None\<rparr> 31 [20, 31]"
    using C2_price_condition [of "\<lparr>StrategyCondition.type = Price, indicator = None,
       condition = Gt, StrategyCondition.value = 55, timeframe = None\<rparr>" "[20, 31]" 31]
    by (simp add: percent_change_31_20 num_gt_def)
  have c: "checkCondition \<lparr>StrategyCondition.type = Price, indicator = None,
       condition = Lt, StrategyCondition.value = 7, timeframe = None\<rparr> 93 [100, 93]"
    using C2_price_condition [of "\<lparr>StrategyCondition.type = Price, indicator = None,
       condition = Lt, StrategyCondition.value = 7, timeframe = None\<rparr>" "[100, 93]" 93]
    by (simp add: percent_change_93_100)
  from a b c show ?thesis by simp
qed

section \<open>Properties of the relative strength index\<close>

lemma num_le_zero_iff:
  "num_le (Fin 0) a \<longleftrightarrow> a = Infinity \<or> (\<exists>r. a = Fin r \<and> 0 \<le> r)"
  by (cases a) (auto simp: num_le_def)

lemma num_eq_zero_iff: "num_eq a (Fin 0) \<longleftrightarrow> a = Fin 0"
  by (cases a) simp_all

lemma b64_nonneg_le: "0 \<le> x \<Longrightarrow> num_le (Fin 0) (b64 x)"
  using b64_nonneg [of x] by (simp add: num_le_zero_iff)

subsection \<open>The loop sums the gains and the losses of the deltas\<close>

lemma length_spec_deltas: "length (spec_deltas xs) = length xs - 1"
  by (simp add: spec_deltas_def)

lemma nth_spec_deltas:
  assumes "1 \<le> i" and "i < length xs"
  shows "spec_deltas xs ! (i - 1) = sub64 (Fin (xs ! i)) (Fin (xs ! (i - 1)))"
  using assms by (simp add: spec_deltas_def nth_tl)

lemma spec_deltas_not_NaN: "d \<in> set (spec_deltas xs) \<Longrightarrow> d \<noteq> NaN"
  by (auto simp: spec_deltas_def sub64_def num_sub_def b64_number_def b64_not_NaN)

lemma rsi_loop_fold:
  assumes "1 \<le> i"
  shows "rsi_loop xs i (g, l) =
     (foldl (\<lambda>g d. if num_gt d (Fin 0) then add64 g d else g) g
        (drop (i - 1) (spec_deltas xs)),
      foldl (\<lambda>l d. if num_gt d (Fin 0) then l else add64 l (Math_abs d)) l
        (drop (i - 1) (spec_deltas xs)))"
  using assms
proof (induction "length xs - i" arbitrary: i g l)
  case 0
  then have "\<not> i < length xs" by simp
  moreover from 0 have "drop (i - 1) (spec_deltas xs) = []"
    by (simp add: length_spec_deltas)
  ultimately show ?case by (subst rsi_loop.simps) simp
next
  case (Suc n)
  then have i: "i < length xs" by simp
  with Suc.prems have "i - 1 < length (spec_deltas xs)"
    by (simp add: length_spec_deltas)
  then have "drop (i - 1) (spec_deltas xs)
      = spec_deltas xs ! (i - 1) # drop (Suc (i - 1)) (spec_deltas xs)"
    by (rule Cons_nth_drop_Suc [symmetric])
  moreover have "spec_deltas xs ! (i - 1) = sub64 (Fin (xs ! i)) (Fin (xs ! (i - 1)))"
    using Suc.prems i by (rule nth_spec_deltas)
  moreover have "Suc (i - 1) = i" using Suc.prems by simp
  ultimately have d: "drop (i - 1) (spec_deltas xs)
      = sub64 (Fin (xs ! i)) (Fin (xs ! (i - 1))) # drop i (spec_deltas xs)"
    by (simp only:)
  from Suc.hyps(2) have n: "n = length xs - (i + 1)" by simp
  have s: "1 \<le> i + 1" by simp
  have ih: "rsi_loop xs (Suc i) (g', l') =
     (foldl (\<lambda>g d. if num_gt d (Fin 0) then add64 g d else g) g'
        (drop i (spec_deltas xs)),
      foldl (\<lambda>l d. if num_gt d (Fin 0) then l else add64 l (Math_abs d)) l'
        (drop i (spec_deltas xs)))" for g' l'
    using Suc.hyps(1) [OF n s, of g' l'] by simp
  from d have d': "drop (i - Suc 0) (spec_deltas xs)
      = sub64 (Fin (xs ! i)) (Fin (xs ! (i - Suc 0))) # drop i (spec_deltas xs)"
    by simp
  show ?case
    by (subst rsi_loop.simps) (simp add: i d' ih Let_def)
qed

lemma slice_from_last:
  assumes "period + 1 \<le> length prices"
  shows "slice_from prices (- int period - 1)
       = drop (length prices - (period + 1)) prices"
proof -
  have "- int period - 1 = - int (period + 1)" by simp
  moreover have "1 \<le> period + 1" by simp
  ultimately show ?thesis using slice_from_neg [OF _ assms] by (simp only:)
qed

lemma calculateRSI_short:
  assumes "length prices < period + 1"
  shows "calculateRSI prices period = Fin 50"
  using assms by (simp add: calculateRSI_def)

lemma calculateRSI_long:
  assumes "period + 1 \<le> length prices"
  shows "calculateRSI prices period =
     (if spec_avg_loss prices period = Fin 0 then Fin 100
      else spec_rsi (spec_avg_gain prices period) (spec_avg_loss prices period))"
proof -
  have "rsi_loop (drop (length prices - (period + 1)) prices) 1 (Fin 0, Fin 0)
      = (spec_gains (spec_last_deltas prices period),
         spec_losses (spec_last_deltas prices period))"
    using rsi_loop_fold [of 1 "drop (length prices - (period + 1)) prices" "Fin 0" "Fin 0"]
    by (simp add: spec_gains_def spec_losses_def spec_last_deltas_def)
  with assms show ?thesis
    by (simp add: calculateRSI_def Let_def slice_from_last num_eq_zero_iff
        spec_avg_gain_def spec_avg_loss_def spec_rsi_def spec_round2_def)
qed

subsection \<open>The averages are not negative\<close>

lemma add64_nonneg:
  assumes "num_le (Fin 0) a" and "num_le (Fin 0) b"
  shows "num_le (Fin 0) (add64 a b)"
proof -
  from assms consider "a = Infinity" | "b = Infinity"
    | r s where "a = Fin r" "b = Fin s" "0 \<le> r" "0 \<le> s"
    by (auto simp: num_le_zero_iff)
  then show ?thesis
  proof cases
    case 1
    with assms(2) show ?thesis
      by (auto simp: num_le_zero_iff add64_def b64_number_def)
  next
    case 2
    with assms(1) show ?thesis
      by (auto simp: num_le_zero_iff add64_def b64_number_def)
  next
    case 3
    then have "0 \<le> r + s" by simp
    from b64_nonneg_le [OF this] 3 show ?thesis
      by (simp add: add64_def b64_number_def)
  qed
qed

lemma div64_nonneg:
  assumes "num_le (Fin 0) a" and "0 < p"
  shows "num_le (Fin 0) (div64 a (Fin p))"
proof -
  from assms(1) consider "a = Infinity" | r where "a = Fin r" "0 \<le> r"
    by (auto simp: num_le_zero_iff)
  then show ?thesis
  proof cases
    case 1
    with assms(2) show ?thesis
      by (simp add: div64_def b64_number_def signed_inf_def num_le_def)
  next
    case 2
    with assms(2) have "0 \<le> r / p" by simp
    from b64_nonneg_le [OF this] 2 assms(2) show ?thesis
      by (simp add: div64_def b64_number_def)
  qed
qed

lemma gain_nonneg: "num_gt d (Fin 0) \<Longrightarrow> num_le (Fin 0) d"
  by (cases d) (simp_all add: num_gt_def num_le_def)

lemma loss_nonneg: "d \<noteq> NaN \<Longrightarrow> num_le (Fin 0) (Math_abs d)"
  by (cases d) (simp_all add: num_le_def)

lemma spec_gains_nonneg:
  assumes "num_le (Fin 0) g"
  shows "num_le (Fin 0)
     (foldl (\<lambda>g d. if num_gt d (Fin 0) then add64 g d else g) g ds)"
  using assms by (induction ds arbitrary: g) (simp_all add: add64_nonneg gain_nonneg)

lemma spec_losses_nonneg:
  assumes "num_le (Fin 0) l" and "\<forall>d\<in>set ds. d \<noteq> NaN"
  shows "num_le (Fin 0)
     (foldl (\<lambda>l d. if num_gt d (Fin 0) then l else add64 l (Math_abs d)) l ds)"
  using assms by (induction ds arbitrary: l) (simp_all add: add64_nonneg loss_nonneg)

lemma spec_avg_nonneg:
  assumes "1 \<le> period"
  shows "num_le (Fin 0) (spec_avg_gain prices period)"
    and "num_le (Fin 0) (spec_avg_loss prices period)"
proof -
  have z: "num_le (Fin 0) (Fin 0)" by (simp add: num_le_def)
  from assms have p: "0 < real period" by simp
  have "num_le (Fin 0) (spec_gains (spec_last_deltas prices period))"
    unfolding spec_gains_def by (rule spec_gains_nonneg [OF z])
  then show "num_le (Fin 0) (spec_avg_gain prices period)"
    unfolding spec_avg_gain_def using p by (rule div64_nonneg)
  have "\<forall>d\<in>set (spec_last_deltas prices period). d \<noteq> NaN"
    by (simp add: spec_last_deltas_def spec_deltas_not_NaN)
  then have "num_le (Fin 0) (spec_losses (spec_last_deltas prices period))"
    unfolding spec_losses_def by (rule spec_losses_nonneg [OF z])
  then show "num_le (Fin 0) (spec_avg_loss prices period)"
    unfolding spec_avg_loss_def using p by (rule div64_nonneg)
qed

subsection \<open>The range of the result\<close>

lemma b64_le_100:
  assumes "0 \<le> x" and "x \<le> 100"
  shows "\<exists>r. b64 x = Fin r \<and> 0 \<le> r \<and> r \<le> 100"
proof -
  have a: "(100::real) = real_of_int (100 * 2 ^ 46) * pow2 (6 - 52)"
    by (simp add: pow2_neg)
  have b: "(100::real) < pow2 (6 + 1)" by (simp add: pow2_def)
  have "(100::real) < 2 ^ 7" by simp
  also have "(2::real) ^ 7 < 2 ^ 1024" by (rule power_strict_increasing) simp_all
  finally have c: "(100::real) < 2 ^ 1024" .
  show ?thesis by (rule b64_le [OF assms a b _ c]) simp
qed

lemma b64_le_10000:
  assumes "0 \<le> x" and "x \<le> 10000"
  shows "\<exists>r. b64 x = Fin r \<and> 0 \<le> r \<and> r \<le> 10000"
proof -
  have a: "(10000::real) = real_of_int (10000 * 2 ^ 39) * pow2 (13 - 52)"
    by (simp add: pow2_neg)
  have b: "(10000::real) < pow2 (13 + 1)" by (simp add: pow2_def)
  have "(10000::real) < 2 ^ 14" by simp
  also have "(2::real) ^ 14 < 2 ^ 1024" by (rule power_strict_increasing) simp_all
  finally have c: "(10000::real) < 2 ^ 1024" .
  show ?thesis by (rule b64_le [OF assms a b _ c]) simp
qed

lemma spec_round2_range:
  assumes "0 \<le> u" and "u \<le> 100"
  shows "\<exists>w. spec_round2 (Fin u) = Fin w \<and> 0 \<le> w \<and> w \<le> 100"
proof -
  from assms have "0 \<le> u * 100" "u * 100 \<le> 10000" by simp_all
  from b64_le_10000 [OF this] obtain v
    where v: "b64 (u * 100) = Fin v" "0 \<le> v" "v \<le> 10000" by blast
  let ?n = "\<lfloor>v + 1 / 2\<rfloor>"
  from v(2) have "0 \<le> ?n" by simp
  then have n0: "0 \<le> real_of_int ?n / 100" by simp
  from v(3) have "?n \<le> 10000" by (simp add: floor_le_iff)
  then have "real_of_int ?n \<le> 10000" by linarith
  then have n1: "real_of_int ?n / 100 \<le> 100" by simp
  from b64_le_100 [OF n0 n1] obtain w
    where w: "b64 (real_of_int ?n / 100) = Fin w" "0 \<le> w" "w \<le> 100" by blast
  have "spec_round2 (Fin u) = Fin w"
    using v(1) w(1) by (simp add: spec_round2_def mul64_def div64_def b64_number_def)
  with w(2,3) show ?thesis by simp
qed

lemma spec_rsi_range:
  assumes "num_le (Fin 0) G" and "num_le (Fin 0) L" and "L \<noteq> Fin 0"
    and "\<not> (G = Infinity \<and> L = Infinity)"
  shows "num_le (Fin 0) (spec_rsi G L) \<and> num_le (spec_rsi G L) (Fin 100)"
proof -
  have rs: "num_le (Fin 0) (div64 G L)"
  proof (cases L)
    case (Fin l)
    with assms(2,3) have l: "0 < l" by (simp add: num_le_def)
    show ?thesis
    proof (cases G)
      case (Fin g)
      with assms(1) l have "0 \<le> g / l" by (simp add: num_le_def)
      from b64_nonneg_le [OF this] Fin \<open>L = Fin l\<close> l show ?thesis
        by (simp add: div64_def b64_number_def)
    next
      case Infinity
      with \<open>L = Fin l\<close> l show ?thesis
        by (simp add: div64_def b64_number_def signed_inf_def num_le_def)
    next
      case NaN
      with assms(1) show ?thesis by (simp add: num_le_def)
    next
      case NegInfinity
      with assms(1) show ?thesis by (simp add: num_le_def)
    qed
  next
    case Infinity
    with assms(4) have "G \<noteq> Infinity" by simp
    with assms(1) obtain g where "G = Fin g" by (auto simp: num_le_zero_iff)
    with Infinity show ?thesis
      by (simp add: div64_def b64_number_def b64_def num_le_def)
  next
    case NaN
    with assms(2) show ?thesis by (simp add: num_le_def)
  next
    case NegInfinity
    with assms(2) show ?thesis by (simp add: num_le_def)
  qed
  have "\<exists>t. div64 (Fin 100) (add64 (Fin 1) (div64 G L)) = Fin t \<and> 0 \<le> t \<and> t \<le> 100"
  proof -
    from rs consider "div64 G L = Infinity" | r where "div64 G L = Fin r" "0 \<le> r"
      by (auto simp: num_le_zero_iff)
    then show ?thesis
    proof cases
      case 1
      then show ?thesis by (simp add: add64_def div64_def b64_number_def b64_def)
    next
      case 2
      then have "1 \<le> 1 + r" by simp
      from b64_ge_one [OF this] consider "b64 (1 + r) = Infinity"
        | s where "b64 (1 + r) = Fin s" "1 \<le> s" by blast
      then show ?thesis
      proof cases
        case 1
        with 2 show ?thesis by (simp add: add64_def div64_def b64_number_def b64_def)
      next
        case 2
        then have "0 \<le> 100 / s" "100 / s \<le> 100" by (simp_all add: divide_le_eq)
        from b64_le_100 [OF this] obtain t
          where "b64 (100 / s) = Fin t" "0 \<le> t" "t \<le> 100" by blast
        with 2 \<open>div64 G L = Fin r\<close> show ?thesis
          by (simp add: add64_def div64_def b64_number_def)
      qed
    qed
  qed
  then obtain t
    where t: "div64 (Fin 100) (add64 (Fin 1) (div64 G L)) = Fin t" "0 \<le> t" "t \<le> 100"
    by blast
  then have "0 \<le> 100 - t" "100 - t \<le> 100" by simp_all
  from b64_le_100 [OF this] obtain u
    where u: "b64 (100 - t) = Fin u" "0 \<le> u" "u \<le> 100" by blast
  from spec_round2_range [OF u(2,3)] obtain w
    where w: "spec_round2 (Fin u) = Fin w" "0 \<le> w" "w \<le> 100" by blast
  have "spec_rsi G L = Fin w"
    using t(1) u(1) w(1) by (simp add: spec_rsi_def sub64_def num_sub_def b64_number_def)
  with w(2,3) show ?thesis by (simp add: num_le_def)
qed

lemma calculateRSI_range:
  assumes "1 \<le> period"
    and "\<not> (spec_avg_gain prices period = Infinity \<and> spec_avg_loss prices period = Infinity)"
  shows "num_le (Fin 0) (calculateRSI prices period)
       \<and> num_le (calculateRSI prices period) (Fin 100)"
proof (cases "length prices < period + 1")
  case True
  then show ?thesis by (simp add: calculateRSI_short num_le_def)
next
  case False
  then have len: "period + 1 \<le> length prices" by simp
  show ?thesis
  proof (cases "spec_avg_loss prices period = Fin 0")
    case True
    with len show ?thesis by (simp add: calculateRSI_long num_le_def)
  next
    case False
    from spec_rsi_range [OF spec_avg_nonneg [OF assms(1)] False assms(2)]
    show ?thesis using len False by (simp add: calculateRSI_long)
  qed
qed

subsection \<open>Examples\<close>

text \<open>Two sums of \<open>2 ^ 1023\<close> overflow.\<close>

lemma huge_pow2: "huge = pow2 1023"
  using pow2_nat [of 1023] by (simp add: huge_def)

lemma huge_pos: "0 < huge"
  by (simp add: huge_pow2 pow2_pos)

lemma b64_huge: "b64 huge = Fin huge"
  using b64_pow2 [of 1023] by (simp add: huge_pow2)

lemma b64_huge_twice: "b64 (2 * huge) = Infinity"
proof -
  have "pow2 1024 = pow2 1023 * pow2 1" using pow2_add [of 1023 1] by simp
  moreover have "pow2 1 = 2" by (simp add: pow2_def)
  ultimately have "2 * huge = pow2 1024" by (simp add: huge_pow2)
  with b64_pow2 [of 1024] show ?thesis by simp
qed

lemma alternating_deltas:
  "spec_last_deltas [huge, 0, huge, 0, huge] 4
   = [Fin (- huge), Fin huge, Fin (- huge), Fin huge]"
  using b64_minus [of huge]
  by (simp add: spec_last_deltas_def spec_deltas_def sub64_def num_sub_def b64_number_def
      b64_huge)

lemma alternating_averages:
  "spec_avg_gain [huge, 0, huge, 0, huge] 4 = Infinity"
  "spec_avg_loss [huge, 0, huge, 0, huge] 4 = Infinity"
  using huge_pos
  by (simp_all add: spec_avg_gain_def spec_avg_loss_def alternating_deltas spec_gains_def
      spec_losses_def num_gt_def add64_def div64_def b64_number_def b64_huge
      b64_huge_twice signed_inf_def)

text \<open>The roundings of three examples of the index.\<close>

lemma b64_at_10: "b64 (1) = Fin (1)"
proof -
  have e: "exponent (1) = 0"
    by (simp add: exponent_def log2_ge1_unfold log2_lt1_unfold)
  have m: "round_even (1 / pow2 (0 - 52)) = 4503599627370496"
    by (simp add: pow2_neg round_even_def)
  have "b64 (1) = Fin (real_of_int 4503599627370496 * pow2 (0 - 52))"
    by (rule b64_value [OF _ e _ m]) (simp_all add: pow2_neg)
  then show ?thesis by (simp add: pow2_neg)
qed

lemma b64_at_11: "b64 (2) = Fin (2)"
proof -
  have e: "exponent (2) = 1"
    by (simp add: exponent_def log2_ge1_unfold log2_lt1_unfold)
  have m: "round_even (2 / pow2 (1 - 52)) = 4503599627370496"
    by (simp add: pow2_neg round_even_def)
  have "b64 (2) = Fin (real_of_int 4503599627370496 * pow2 (1 - 52))"
    by (rule b64_value [OF _ e _ m]) (simp_all add: pow2_neg)
  then show ?thesis by (simp add: pow2_neg)
qed

lemma b64_at_12: "b64 (3) = Fin (3)"
proof -
  have e: "exponent (3) = 1"
    by (simp add: exponent_def log2_ge1_unfold log2_lt1_unfold)
  have m: "round_even (3 / pow2 (1 - 52)) = 6755399441055744"
    by (simp add: pow2_neg round_even_def)
  have "b64 (3) = Fin (real_of_int 6755399441055744 * pow2 (1 - 52))"
    by (rule b64_value [OF _ e _ m]) (simp_all add: pow2_neg)
  then show ?thesis by (simp add: pow2_neg)
qed

lemma b64_at_13: "b64 (1 / 3) = Fin (6004799503160661 / 18014398509481984)"
proof -
  have e: "exponent (1 / 3) = - 2"
    by (simp add: exponent_def log2_ge1_unfold log2_lt1_unfold)
  have m: "round_even (1 / 3 / pow2 (- 2 - 52)) = 6004799503160661"
    by (simp add: pow2_neg round_even_def)
  have "b64 (1 / 3) = Fin (real_of_int 6004799503160661 * pow2 (- 2 - 52))"
    by (rule b64_value [OF _ e _ m]) (simp_all add: pow2_neg)
  then show ?thesis by (simp add: pow2_neg)
qed

lemma b64_at_14: "b64 (18014398509481984 / 6004799503160661) = Fin (3)"
proof -
  have e: "exponent (18014398509481984 / 6004799503160661) = 1"
    by (simp add: exponent_def log2_ge1_unfold log2_lt1_unfold)
  have m: "round_even (18014398509481984 / 6004799503160661 / pow2 (1 - 52)) = 6755399441055744"
    by (simp add: pow2_neg round_even_def)
  have "b64 (18014398509481984 / 6004799503160661) = Fin (real_of_int 6755399441055744 * pow2 (1 - 52))"
    by (rule b64_value [OF _ e _ m]) (simp_all add: pow2_neg)
  then show ?thesis by (simp add: pow2_neg)
qed

lemma b64_at_15: "b64 (4) = Fin (4)"
proof -
  have e: "exponent (4) = 2"
    by (simp add: exponent_def log2_ge1_unfold log2_lt1_unfold)
  have m: "round_even (4 / pow2 (2 - 52)) = 4503599627370496"
    by (simp add: pow2_neg round_even_def)
  have "b64 (4) = Fin (real_of_int 4503599627370496 * pow2 (2 - 52))"
    by (rule b64_value [OF _ e _ m]) (simp_all add: pow2_neg)
  then show ?thesis by (simp add: pow2_neg)
qed

lemma b64_at_16: "b64 (25) = Fin (25)"
proof -
  have e: "exponent (25) = 4"
    by (simp add: exponent_def log2_ge1_unfold log2_lt1_unfold)
  have m: "round_even (25 / pow2 (4 - 52)) = 7036874417766400"
    by (simp add: pow2_neg round_even_def)
  have "b64 (25) = Fin (real_of_int 7036874417766400 * pow2 (4 - 52))"
    by (rule b64_value [OF _ e _ m]) (simp_all add: pow2_neg)
  then show ?thesis by (simp add: pow2_neg)
qed

lemma b64_at_17: "b64 (75) = Fin (75)"
proof -
  have e: "exponent (75) = 6"
    by (simp add: exponent_def log2_ge1_unfold log2_lt1_unfold)
  have m: "round_even (75 / pow2 (6 - 52)) = 5277655813324800"
    by (simp add: pow2_neg round_even_def)
  have "b64 (75) = Fin (real_of_int 5277655813324800 * pow2 (6 - 52))"
    by (rule b64_value [OF _ e _ m]) (simp_all add: pow2_neg)
  then show ?thesis by (simp add: pow2_neg)
qed

lemma b64_at_18: "b64 (7500) = Fin (7500)"
proof -
  have e: "exponent (7500) = 12"
    by (simp add: exponent_def log2_ge1_unfold log2_lt1_unfold)
  have m: "round_even (7500 / pow2 (12 - 52)) = 8246337208320000"
    by (simp add: pow2_neg round_even_def)
  have "b64 (7500) = Fin (real_of_int 8246337208320000 * pow2 (12 - 52))"
    by (rule b64_value [OF _ e _ m]) (simp_all add: pow2_neg)
  then show ?thesis by (simp add: pow2_neg)
qed

lemma b64_at_19: "b64 (83) = Fin (83)"
proof -
  have e: "exponent (83) = 6"
    by (simp add: exponent_def log2_ge1_unfold log2_lt1_unfold)
  have m: "round_even (83 / pow2 (6 - 52)) = 5840605766746112"
    by (simp add: pow2_neg round_even_def)
  have "b64 (83) = Fin (real_of_int 5840605766746112 * pow2 (6 - 52))"
    by (rule b64_value [OF _ e _ m]) (simp_all add: pow2_neg)
  then show ?thesis by (simp add: pow2_neg)
qed

lemma b64_at_20: "b64 (77) = Fin (77)"
proof -
  have e: "exponent (77) = 6"
    by (simp add: exponent_def log2_ge1_unfold log2_lt1_unfold)
  have m: "round_even (77 / pow2 (6 - 52)) = 5418393301680128"
    by (simp add: pow2_neg round_even_def)
  have "b64 (77) = Fin (real_of_int 5418393301680128 * pow2 (6 - 52))"
    by (rule b64_value [OF _ e _ m]) (simp_all add: pow2_neg)
  then show ?thesis by (simp add: pow2_neg)
qed

lemma b64_at_21: "b64 (83 / 2) = Fin (83 / 2)"
proof -
  have e: "exponent (83 / 2) = 5"
    by (simp add: exponent_def log2_ge1_unfold log2_lt1_unfold)
  have m: "round_even (83 / 2 / pow2 (5 - 52)) = 5840605766746112"
    by (simp add: pow2_neg round_even_def)
  have "b64 (83 / 2) = Fin (real_of_int 5840605766746112 * pow2 (5 - 52))"
    by (rule b64_value [OF _ e _ m]) (simp_all add: pow2_neg)
  then show ?thesis by (simp add: pow2_neg)
qed

lemma b64_at_22: "b64 (77 / 2) = Fin (77 / 2)"
proof -
  have e: "exponent (77 / 2) = 5"
    by (simp add: exponent_def log2_ge1_unfold log2_lt1_unfold)
  have m: "round_even (77 / 2 / pow2 (5 - 52)) = 5418393301680128"
    by (simp add: pow2_neg round_even_def)
  have "b64 (77 / 2) = Fin (real_of_int 5418393301680128 * pow2 (5 - 52))"
    by (rule b64_value [OF _ e _ m]) (simp_all add: pow2_neg)
  then show ?thesis by (simp add: pow2_neg)
qed

lemma b64_at_23: "b64 (83 / 77) = Fin (4854529468464301 / 4503599627370496)"
proof -
  have e: "exponent (83 / 77) = 0"
    by (simp add: exponent_def log2_ge1_unfold log2_lt1_unfold)
  have m: "round_even (83 / 77 / pow2 (0 - 52)) = 4854529468464301"
    by (simp add: pow2_neg round_even_def)
  have "b64 (83 / 77) = Fin (real_of_int 4854529468464301 * pow2 (0 - 52))"
    by (rule b64_value [OF _ e _ m]) (simp_all add: pow2_neg)
  then show ?thesis by (simp add: pow2_neg)
qed

lemma b64_at_24: "b64 (9358129095834797 / 4503599627370496) = Fin (2339532273958699 / 1125899906842624)"
proof -
  have e: "exponent (9358129095834797 / 4503599627370496) = 1"
    by (simp add: exponent_def log2_ge1_unfold log2_lt1_unfold)
  have m: "round_even (9358129095834797 / 4503599627370496 / pow2 (1 - 52)) = 4679064547917398"
    by (simp add: pow2_neg round_even_def)
  have "b64 (9358129095834797 / 4503599627370496) = Fin (real_of_int 4679064547917398 * pow2 (1 - 52))"
    by (rule b64_value [OF _ e _ m]) (simp_all add: pow2_neg)
  then show ?thesis by (simp add: pow2_neg)
qed

lemma b64_at_25: "b64 (112589990684262400 / 2339532273958699) = Fin (6772991627100161 / 140737488355328)"
proof -
  have e: "exponent (112589990684262400 / 2339532273958699) = 5"
    by (simp add: exponent_def log2_ge1_unfold log2_lt1_unfold)
  have m: "round_even (112589990684262400 / 2339532273958699 / pow2 (5 - 52)) = 6772991627100161"
    by (simp add: pow2_neg round_even_def)
  have "b64 (112589990684262400 / 2339532273958699) = Fin (real_of_int 6772991627100161 * pow2 (5 - 52))"
    by (rule b64_value [OF _ e _ m]) (simp_all add: pow2_neg)
  then show ?thesis by (simp add: pow2_neg)
qed

lemma b64_at_26: "b64 (7300757208432639 / 140737488355328) = Fin (7300757208432639 / 140737488355328)"
proof -
  have e: "exponent (7300757208432639 / 140737488355328) = 5"
    by (simp add: exponent_def log2_ge1_unfold log2_lt1_unfold)
  have m: "round_even (7300757208432639 / 140737488355328 / pow2 (5 - 52)) = 7300757208432639"
    by (simp add: pow2_neg round_even_def)
  have "b64 (7300757208432639 / 140737488355328) = Fin (real_of_int 7300757208432639 * pow2 (5 - 52))"
    by (rule b64_value [OF _ e _ m]) (simp_all add: pow2_neg)
  then show ?thesis by (simp add: pow2_neg)
qed

lemma b64_at_27: "b64 (182518930210815975 / 35184372088832) = Fin (5703716569087999 / 1099511627776)"
proof -
  have e: "exponent (182518930210815975 / 35184372088832) = 12"
    by (simp add: exponent_def log2_ge1_unfold log2_lt1_unfold)
  have m: "round_even (182518930210815975 / 35184372088832 / pow2 (12 - 52)) = 5703716569087999"
    by (simp add: pow2_neg round_even_def)
  have "b64 (182518930210815975 / 35184372088832) = Fin (real_of_int 5703716569087999 * pow2 (12 - 52))"
    by (rule b64_value [OF _ e _ m]) (simp_all add: pow2_neg)
  then show ?thesis by (simp add: pow2_neg)
qed

lemma b64_at_28: "b64 (5187 / 100) = Fin (7300053520990863 / 140737488355328)"
proof -
  have e: "exponent (5187 / 100) = 5"
    by (simp add: exponent_def log2_ge1_unfold log2_lt1_unfold)
  have m: "round_even (5187 / 100 / pow2 (5 - 52)) = 7300053520990863"
    by (simp add: pow2_neg round_even_def)
  have "b64 (5187 / 100) = Fin (real_of_int 7300053520990863 * pow2 (5 - 52))"
    by (rule b64_value [OF _ e _ m]) (simp_all add: pow2_neg)
  then show ?thesis by (simp add: pow2_neg)
qed

lemma rising_averages:
  "spec_avg_gain [1, 2, 3, 4] 3 = Fin 1"
  "spec_avg_loss [1, 2, 3, 4] 3 = Fin 0"
  by (simp_all add: spec_avg_gain_def spec_avg_loss_def spec_last_deltas_def
      spec_deltas_def spec_gains_def spec_losses_def sub64_def add64_def div64_def
      num_sub_def num_gt_def b64_number_def b64_zero b64_at_10 b64_at_11 b64_at_12)

lemma mixed_averages:
  "spec_avg_gain [1, 2, 3, 2, 4] 3 = Fin 1"
  "spec_avg_loss [1, 2, 3, 2, 4] 3 = Fin (6004799503160661 / 18014398509481984)"
  using b64_minus [of 1]
  by (simp_all add: spec_avg_gain_def spec_avg_loss_def spec_last_deltas_def
      spec_deltas_def spec_gains_def spec_losses_def sub64_def add64_def div64_def
      num_sub_def num_gt_def b64_number_def b64_at_10 b64_at_11 b64_at_12 b64_at_13)

lemma mixed_rsi:
  "spec_rsi (Fin 1) (Fin (6004799503160661 / 18014398509481984)) = Fin 75"
  by (simp add: spec_rsi_def spec_round2_def sub64_def add64_def div64_def mul64_def
      num_sub_def b64_number_def b64_at_14 b64_at_15 b64_at_16 b64_at_17 b64_at_18)

lemma spike_averages:
  "spec_avg_gain [0, 83, 6] 2 = Fin (83 / 2)"
  "spec_avg_loss [0, 83, 6] 2 = Fin (77 / 2)"
  using b64_minus [of 77]
  by (simp_all add: spec_avg_gain_def spec_avg_loss_def spec_last_deltas_def
      spec_deltas_def spec_gains_def spec_losses_def sub64_def add64_def div64_def
      num_sub_def num_gt_def b64_number_def b64_at_19 b64_at_20 b64_at_21 b64_at_22)

lemma spike_rsi:
  "spec_rsi (Fin (83 / 2)) (Fin (77 / 2)) = b64 (5187 / 100)"
  by (simp add: spec_rsi_def spec_round2_def sub64_def add64_def div64_def mul64_def
      num_sub_def b64_number_def b64_at_23 b64_at_24 b64_at_25 b64_at_26 b64_at_27
      b64_at_28)

subsection \<open>The claim\<close>

text \<open>
  C3, as stated, fails twice. For the period 0 the array of recent prices has one sample,
  both sums are 0, both averages are \<open>0 / 0\<close>, and the result is \<open>NaN\<close>, which lies in no
  interval. For the period 4 and the prices \<open>2 ^ 1023, 0, 2 ^ 1023, 0, 2 ^ 1023\<close>, all of
  them binary64 values, the sum of the gains and the sum of the losses are both
  \<open>2 ^ 1024\<close>, which rounds to \<open>Infinity\<close>; both averages are \<open>Infinity\<close>, their ratio
  is \<open>NaN\<close> and so is the result.
\<close>

theorem C3_counterexample:
  "calculateRSI [1, 2, 3] 0 = NaN
   \<and> \<not> (num_le (Fin 0) (calculateRSI [1, 2, 3] 0)
          \<and> num_le (calculateRSI [1, 2, 3] 0) (Fin 100))
   \<and> calculateRSI [huge, 0, huge, 0, huge] 4 = NaN
   \<and> \<not> (num_le (Fin 0) (calculateRSI [huge, 0, huge, 0, huge] 4)
          \<and> num_le (calculateRSI [huge, 0, huge, 0, huge] 4) (Fin 100))"
proof -
  have "spec_avg_loss [1, 2, 3] 0 = NaN" "spec_avg_gain [1, 2, 3] 0 = NaN"
    by (simp_all add: spec_avg_loss_def spec_avg_gain_def spec_last_deltas_def
        spec_deltas_def spec_losses_def spec_gains_def div64_def b64_number_def)
  then have a: "calculateRSI [1, 2, 3] 0 = NaN"
    by (simp add: calculateRSI_long spec_rsi_def spec_round2_def div64_def add64_def
        sub64_def mul64_def num_sub_def b64_number_def)
  have b: "calculateRSI [huge, 0, huge, 0, huge] 4 = NaN"
    by (simp add: calculateRSI_long alternating_averages spec_rsi_def spec_round2_def
        div64_def add64_def sub64_def mul64_def num_sub_def b64_number_def)
  from a b show ?thesis by (simp add: num_le_def)
qed

text \<open>
  C3, amended. The arithmetic is the binary64 arithmetic of the code. For every price
  sequence and every period of at least 1: \<open>calculateRSI\<close> returns 50 when the sequence
  has fewer than \<open>period + 1\<close> samples; otherwise it returns 100 when the average loss over
  the last \<open>period\<close> deltas is 0, and else \<open>100 - 100 / (1 + avgGain / avgLoss)\<close> rounded
  to 2 decimal places; and the result lies between 0 and 100 unless the average gain and
  the average loss have both overflowed to \<open>Infinity\<close>.
\<close>

theorem C3_rsi:
  assumes "1 \<le> period"
  shows "(length prices < period + 1 \<longrightarrow> calculateRSI prices period = Fin 50)
       \<and> (period + 1 \<le> length prices \<and> spec_avg_loss prices period = Fin 0 \<longrightarrow>
            calculateRSI prices period = Fin 100)
       \<and> (period + 1 \<le> length prices \<and> spec_avg_loss prices period \<noteq> Fin 0 \<longrightarrow>
            calculateRSI prices period
            = spec_rsi (spec_avg_gain prices period) (spec_avg_loss prices period))
       \<and> (\<not> (spec_avg_gain prices period = Infinity
               \<and> spec_avg_loss prices period = Infinity) \<longrightarrow>
            num_le (Fin 0) (calculateRSI prices period)
            \<and> num_le (calculateRSI prices period) (Fin 100))"
proof (intro conjI impI)
  assume "length prices < period + 1"
  then show "calculateRSI prices period = Fin 50" by (rule calculateRSI_short)
next
  assume "period + 1 \<le> length prices \<and> spec_avg_loss prices period = Fin 0"
  then show "calculateRSI prices period = Fin 100" by (simp add: calculateRSI_long)
next
  assume "period + 1 \<le> length prices \<and> spec_avg_loss prices period \<noteq> Fin 0"
  then show "calculateRSI prices period
      = spec_rsi (spec_avg_gain prices period) (spec_avg_loss prices period)"
    by (simp add: calculateRSI_long)
next
  assume a: "\<not> (spec_avg_gain prices period = Infinity
                \<and> spec_avg_loss prices period = Infinity)"
  show "num_le (Fin 0) (calculateRSI prices period)"
    using calculateRSI_range [OF assms a] by (rule conjunct1)
  show "num_le (calculateRSI prices period) (Fin 100)"
    using calculateRSI_range [OF assms a] by (rule conjunct2)
qed

theorem C3_rsi_witness:
  "(1::nat) \<le> 3 \<and> (1::nat) \<le> 2
   \<and> length [1, 2::real] < 3 + 1 \<and> calculateRSI [1, 2] 3 = Fin 50
   \<and> 3 + 1 \<le> length [1, 2, 3, 4::real] \<and> spec_avg_loss [1, 2, 3, 4] 3 = Fin 0
   \<and> calculateRSI [1, 2, 3, 4] 3 = Fin 100
   \<and> 3 + 1 \<le> length [1, 2, 3, 2, 4::real] \<and> spec_avg_loss [1, 2, 3, 2, 4] 3 \<noteq> Fin 0
   \<and> calculateRSI [1, 2, 3, 2, 4] 3 = Fin 75
   \<and> 2 + 1 \<le> length [0, 83, 6::real] \<and> spec_avg_loss [0, 83, 6] 2 \<noteq> Fin 0
   \<and> calculateRSI [0, 83, 6] 2 = b64 (5187 / 100)
   \<and> b64 (5187 / 100) = Fin (7300053520990863 / 140737488355328)
   \<and> \<not> (spec_avg_gain [0, 83, 6] 2 = Infinity \<and> spec_avg_loss [0, 83, 6] 2 = Infinity)
   \<and> num_le (Fin 0) (calculateRSI [0, 83, 6] 2)
   \<and> num_le (calculateRSI [0, 83, 6] 2) (Fin 100)"
proof -
  from C3_rsi [of 3 "[1, 2]"] have a: "calculateRSI [1, 2] 3 = Fin 50" by simp
  from C3_rsi [of 3 "[1, 2, 3, 4]"] have b: "calculateRSI [1, 2, 3, 4] 3 = Fin 100"
    by (simp add: rising_averages)
  from C3_rsi [of 3 "[1, 2, 3, 2, 4]"]
  have c: "calculateRSI [1, 2, 3, 2, 4] 3 = Fin 75"
    by (simp add: mixed_averages mixed_rsi)
  from C3_rsi [of 2 "[0, 83, 6]"]
  have d: "calculateRSI [0, 83, 6] 2 = b64 (5187 / 100)"
    by (simp add: spike_averages spike_rsi)
  from C3_rsi [of 2 "[0, 83, 6]", THEN conjunct2, THEN conjunct2, THEN conjunct2]
  have e: "num_le (Fin 0) (calculateRSI [0, 83, 6] 2)
           \<and> num_le (calculateRSI [0, 83, 6] 2) (Fin 100)"
    by (simp add: spike_averages)
  from a b c d e show ?thesis
    by (simp add: rising_averages mixed_averages spike_averages b64_at_28)
qed

section \<open>Properties of the MACD condition\<close>











section \<open>Properties of the performance figures\<close>

lemma map_filter_Cons:
  "List.map_filter f (x # xs) =
     (case f x of None \<Rightarrow> List.map_filter f xs | Some y \<Rightarrow> y # List.map_filter f xs)"
  by (simp add: List.map_filter_def split: option.splits)

lemma pnl_loop_pairs:
  "pnl_loop ts (2 * k) (tot, w, ps) =
     (let rest = List.map_filter spec_pair_pnl
                   (map (\<lambda>i. (ts ! (2 * i), ts ! (2 * i + 1))) [k..<length ts div 2])
      in (tot + sum_list rest, w + length (filter (\<lambda>p. p > 0) rest), ps @ rest))"
proof (induction "length ts div 2 - k" arbitrary: k tot w ps)
  case 0
  then have ge: "length ts div 2 \<le> k" by simp
  then have "[k..<length ts div 2] = []" by simp
  moreover from ge have "\<not> 2 * k < length ts \<or> length ts \<le> 2 * k + 1" by linarith
  ultimately show ?case
    by (subst pnl_loop.simps) (auto simp: Let_def List.map_filter_def)
next
  case (Suc n)
  then have lt: "k < length ts div 2" by simp
  then have in_range: "2 * k < length ts" "\<not> length ts \<le> 2 * k + 1" by linarith+
  from lt have upt: "[k..<length ts div 2] = k # [Suc k..<length ts div 2]"
    by (simp add: upt_conv_Cons)
  from Suc.hyps(2) have n: "n = length ts div 2 - Suc k" by simp
  have step: "2 * k + 2 = 2 * Suc k" by simp
  note ih = Suc.hyps(1) [OF n]
  show ?case
  proof (cases "Trade.type (ts ! (2 * k)) = buy \<and> Trade.type (ts ! (2 * k + 1)) = sell")
    case True
    let ?pnl = "(price (ts ! (2 * k + 1)) - price (ts ! (2 * k))) * Trade.amount (ts ! (2 * k))"
    have sp: "spec_pair_pnl (ts ! (2 * k), ts ! Suc (2 * k)) = Some ?pnl"
      using True by (simp add: spec_pair_pnl_def)
    have "pnl_loop ts (2 * k) (tot, w, ps)
        = pnl_loop ts (2 * Suc k)
            (tot + ?pnl, (if ?pnl > 0 then w + 1 else w), ps @ [?pnl])"
      using in_range True by (subst pnl_loop.simps) (simp add: Let_def)
    also note ih [of "tot + ?pnl" "if ?pnl > 0 then w + 1 else w" "ps @ [?pnl]"]
    finally show ?thesis
      by (simp add: upt map_filter_Cons sp Let_def)
  next
    case False
    have sp: "spec_pair_pnl (ts ! (2 * k), ts ! Suc (2 * k)) = None"
      using False by (auto simp: spec_pair_pnl_def)
    have "pnl_loop ts (2 * k) (tot, w, ps) = pnl_loop ts (2 * Suc k) (tot, w, ps)"
      using in_range False by (subst pnl_loop.simps) (auto simp: Let_def)
    also note ih [of tot w ps]
    finally show ?thesis
      by (simp add: upt map_filter_Cons sp Let_def)
  qed
qed

lemma pnl_loop_spec:
  "pnl_loop ts 0 (0, 0, []) =
     (sum_list (spec_pnls ts), length (filter (\<lambda>p. p > 0) (spec_pnls ts)), spec_pnls ts)"
  using pnl_loop_pairs [of ts 0 0 0 "[]"]
  by (simp add: Let_def spec_pnls_def spec_pairs_def)

lemma spec_pnls_short:
  assumes "length ts < 2"
  shows "spec_pnls ts = []"
  using assms by (simp add: spec_pnls_def spec_pairs_def List.map_filter_def)

lemma performance_figures:
  "totalPnL (calculatePerformance ledgers n) = sum_list (spec_pnls (getTrades ledgers n))"
  "winRate (calculatePerformance ledgers n) =
     (if 0 < length (getTrades ledgers n) div 2
      then real (length (filter (\<lambda>p. p > 0) (spec_pnls (getTrades ledgers n))))
             / real (length (getTrades ledgers n) div 2) * 100
      else 0)"
proof -
  let ?ts = "getTrades ledgers n"
  have ts: "(case ledgers n of Some ts \<Rightarrow> ts | None \<Rightarrow> []) = ?ts"
    by (simp add: getTrades_def)
  show "totalPnL (calculatePerformance ledgers n) = sum_list (spec_pnls ?ts)"
    unfolding calculatePerformance_def ts Let_def pnl_loop_spec
    by (simp add: spec_pnls_short split: prod.splits)
  show "winRate (calculatePerformance ledgers n) =
     (if 0 < length ?ts div 2
      then real (length (filter (\<lambda>p. p > 0) (spec_pnls ?ts))) / real (length ?ts div 2) * 100
      else 0)"
    unfolding calculatePerformance_def ts Let_def pnl_loop_spec
    by (simp split: prod.splits)
qed

lemma spec_pairs_trailing:
  assumes "even (length ts)"
  shows "spec_pairs (ts @ [t]) = spec_pairs ts"
proof -
  from assms have half: "length (ts @ [t]) div 2 = length ts div 2" by auto
  have "\<forall>i \<in> set [0..<length ts div 2].
          ((ts @ [t]) ! (2 * i), (ts @ [t]) ! (2 * i + 1)) = (ts ! (2 * i), ts ! (2 * i + 1))"
  proof
    fix i assume "i \<in> set [0..<length ts div 2]"
    then have "i < length ts div 2" by simp
    then have "2 * i < length ts" "2 * i + 1 < length ts" by linarith+
    then show "((ts @ [t]) ! (2 * i), (ts @ [t]) ! (2 * i + 1)) = (ts ! (2 * i), ts ! (2 * i + 1))"
      by (simp add: nth_append)
  qed
  then show ?thesis unfolding spec_pairs_def half by (intro map_cong) auto
qed

lemma getTrades_recordTrade:
  "getTrades (recordTrade ledgers t) (Trade.strategy t)
     = getTrades ledgers (Trade.strategy t) @ [t]"
  by (cases "ledgers (Trade.strategy t)")
     (simp_all add: getTrades_def recordTrade_def Let_def)

text \<open>
  C4. \<open>calculatePerformance\<close> pairs the trades of a ledger by index parity; a pair
  counts only when it is a buy followed by a sell, with the profit
  \<open>(sellPrice - buyPrice) * buyAmount\<close>. The total is the sum of these profits, and the
  win rate is 100 times the number of positive ones over half the length of the ledger,
  rounded down (0 when the ledger has fewer than two trades). A trade recorded on a ledger
  of even length has no partner and changes neither figure.
\<close>

theorem C4_performance:
  "totalPnL (calculatePerformance ledgers n) = sum_list (spec_pnls (getTrades ledgers n))
   \<and> winRate (calculatePerformance ledgers n) =
       (if 0 < length (getTrades ledgers n) div 2
        then 100 * real (length (filter (\<lambda>p. p > 0) (spec_pnls (getTrades ledgers n))))
               / real (length (getTrades ledgers n) div 2)
        else 0)
   \<and> (even (length (getTrades ledgers (Trade.strategy t))) \<longrightarrow>
        totalPnL (calculatePerformance (recordTrade ledgers t) (Trade.strategy t))
          = totalPnL (calculatePerformance ledgers (Trade.strategy t))
        \<and> winRate (calculatePerformance (recordTrade ledgers t) (Trade.strategy t))
          = winRate (calculatePerformance ledgers (Trade.strategy t)))"
proof (intro conjI impI)
  show "totalPnL (calculatePerformance ledgers n) = sum_list (spec_pnls (getTrades ledgers n))"
    by (rule performance_figures(1))
  show "winRate (calculatePerformance ledgers n) =
       (if 0 < length (getTrades ledgers n) div 2
        then 100 * real (length (filter (\<lambda>p. p > 0) (spec_pnls (getTrades ledgers n))))
               / real (length (getTrades ledgers n) div 2)
        else 0)"
    by (simp add: performance_figures(2))
next
  assume ev: "even (length (getTrades ledgers (Trade.strategy t)))"
  then have pnls: "spec_pnls (getTrades ledgers (Trade.strategy t) @ [t])
      = spec_pnls (getTrades ledgers (Trade.strategy t))"
    by (simp add: spec_pnls_def spec_pairs_trailing)
  from ev have half: "length (getTrades ledgers (Trade.strategy t) @ [t]) div 2
      = length (getTrades ledgers (Trade.strategy t)) div 2" by auto
  show "totalPnL (calculatePerformance (recordTrade ledgers t) (Trade.strategy t))
          = totalPnL (calculatePerformance ledgers (Trade.strategy t))"
    by (simp only: performance_figures(1) getTrades_recordTrade pnls)
  show "winRate (calculatePerformance (recordTrade ledgers t) (Trade.strategy t))
          = winRate (calculatePerformance ledgers (Trade.strategy t))"
    by (simp only: performance_figures(2) getTrades_recordTrade pnls half)
qed

theorem C4_performance_witness:
  "even (length (getTrades (recordTrade (recordTrade Map.empty buy_at_100) sell_at_110)
                   (Trade.strategy buy_at_100)))
   \<and> totalPnL (calculatePerformance
         (recordTrade (recordTrade Map.empty buy_at_100) sell_at_110)
         ''SOL RSI Strategy'') = 10
   \<and> winRate (calculatePerformance
         (recordTrade (recordTrade Map.empty buy_at_100) sell_at_110)
         ''SOL RSI Strategy'') = 100
   \<and> totalPnL (calculatePerformance
         (recordTrade (recordTrade (recordTrade Map.empty buy_at_100) sell_at_110) buy_at_100)
         ''SOL RSI Strategy'') = 10
   \<and> winRate (calculatePerformance
         (recordTrade (recordTrade (recordTrade Map.empty buy_at_100) sell_at_110) buy_at_100)
         ''SOL RSI Strategy'') = 100"
proof -
  let ?l = "recordTrade (recordTrade Map.empty buy_at_100) sell_at_110"
  have s: "Trade.strategy buy_at_100 = ''SOL RSI Strategy''"
    "Trade.strategy sell_at_110 = ''SOL RSI Strategy''"
    by (simp_all add: buy_at_100_def sell_at_110_def)
  have "getTrades (recordTrade Map.empty buy_at_100) ''SOL RSI Strategy'' = [buy_at_100]"
    using getTrades_recordTrade [of Map.empty buy_at_100]
    by (simp add: s getTrades_def)
  then have ts: "getTrades ?l ''SOL RSI Strategy'' = [buy_at_100, sell_at_110]"
    using getTrades_recordTrade [of "recordTrade Map.empty buy_at_100" sell_at_110]
    by (simp add: s)
  have pnls: "spec_pnls [buy_at_100, sell_at_110] = [10]"
    by (simp add: spec_pnls_def spec_pairs_def spec_pair_pnl_def List.map_filter_def
        buy_at_100_def sell_at_110_def)
  note c4 = C4_performance [of ?l "''SOL RSI Strategy''" buy_at_100]
  from c4 have tot: "totalPnL (calculatePerformance ?l ''SOL RSI Strategy'') = 10"
    by (simp add: ts pnls)
  from c4 have win: "winRate (calculatePerformance ?l ''SOL RSI Strategy'') = 100"
    by (simp add: ts pnls)
  have ev: "even (length (getTrades ?l (Trade.strategy buy_at_100)))"
    by (simp add: s ts)
  from c4 ev s tot win show ?thesis by simp
qed

section \<open>The parser on the example strategy\<close>

lemma example_toLowerCase: "toLowerCase example_input = example_normalized"
  by code_simp

lemma example_asset: "extractAsset example_normalized = ''SOL/USDC''"
  by code_simp

lemma example_entry: "extractCondition example_normalized Entry = default_condition Entry"
  by code_simp

lemma example_maxPosition: "extractMaxPosition example_normalized = 30"
  by code_simp

lemma example_name: "generateStrategyName example_input = ''SOL RSI Strategy''"
  by code_simp

text \<open>
  Where \<open>below\<close> follows \<open>rsi\<close> directly the first pattern matches, and where the
  dollar amount is the first number of the text it is the position size.
\<close>

lemma adjacent_rsi_entry:
  "extractCondition ''buy sol when rsi below 30'' Entry
   = \<lparr>StrategyCondition.type = Indicator, indicator = Some RSI, condition = Lt,
      StrategyCondition.value = 30, timeframe = Some TF_15m\<rparr>"
  by code_simp

lemma leading_dollar_amount: "extractMaxPosition ''max position $500'' = 500"
  by code_simp

text \<open>
  C1 on the code. For the example strategy \<open>parseStrategy\<close> returns the asset
  \<open>SOL/USDC\<close> and the name of an RSI strategy, but the entry is the default price
  condition with the value 100 and no indicator, and \<open>maxPosition\<close> is 30: no pattern
  for the RSI allows a word between \<open>rsi\<close> and \<open>below\<close>, and the pattern of the
  position size takes the first number of the text.
\<close>

theorem C1_parse_example:
  "ParsedStrategy.asset (parseStrategy example_input) = ''SOL/USDC''
   \<and> name (parseStrategy example_input) = ''SOL RSI Strategy''
   \<and> entry (parseStrategy example_input)
       = \<lparr>StrategyCondition.type = Price, indicator = None, condition = Lt,
          StrategyCondition.value = 100, timeframe = Some TF_15m\<rparr>
   \<and> maxPosition (parseStrategy example_input) = 30
   \<and> indicator (entry (parseStrategy example_input)) \<noteq> Some RSI
   \<and> StrategyCondition.value (entry (parseStrategy example_input)) \<noteq> 30
   \<and> maxPosition (parseStrategy example_input) \<noteq> 500"
  by (simp add: parseStrategy_def Let_def example_toLowerCase example_asset example_entry
      example_maxPosition example_name default_condition_def)

end
